theory Spec2Isabelle
  imports Complex_Main
begin

section \<open>Numbers, instants and time series\<close>

text \<open>
  A Go \<open>float64\<close> is modelled as either \<open>NaN\<close> ("no data") or a real number. The
  two infinities are not modelled: the values are byte positions, connection counts and
  settings. Every comparison with \<open>NaN\<close> is false, and arithmetic with \<open>NaN\<close> gives
  \<open>NaN\<close>, as in IEEE 754. Sums and differences are exact: their operands are counts and
  positions, integers that \<open>float64\<close> holds exactly. A quotient or a product is in general
  not a \<open>float64\<close>: division and multiplication round their exact result with \<open>rnd\<close>,
  the rounding of \<open>float64\<close>, which is a parameter (the identity gives exact arithmetic).
\<close>

datatype float64 = NaN | Val real

fun IsNaN :: "float64 \<Rightarrow> bool" where
  "IsNaN NaN = True"
| "IsNaN (Val _) = False"

fun fgt :: "float64 \<Rightarrow> float64 \<Rightarrow> bool" where
  "fgt (Val a) (Val b) = (a > b)"
| "fgt _ _ = False"

fun flt :: "float64 \<Rightarrow> float64 \<Rightarrow> bool" where
  "flt (Val a) (Val b) = (a < b)"
| "flt _ _ = False"

fun fle :: "float64 \<Rightarrow> float64 \<Rightarrow> bool" where
  "fle (Val a) (Val b) = (a \<le> b)"
| "fle _ _ = False"

fun fadd :: "float64 \<Rightarrow> float64 \<Rightarrow> float64" where
  "fadd (Val a) (Val b) = Val (a + b)"
| "fadd _ _ = NaN"

fun fsub :: "float64 \<Rightarrow> float64 \<Rightarrow> float64" where
  "fsub (Val a) (Val b) = Val (a - b)"
| "fsub _ _ = NaN"

fun fmul :: "(real \<Rightarrow> real) \<Rightarrow> float64 \<Rightarrow> float64 \<Rightarrow> float64" where
  "fmul rnd (Val a) (Val b) = Val (rnd (a * b))"
| "fmul rnd _ _ = NaN"

text \<open>
  Division is only reached behind the guard \<open>max > 0\<close>; a zero divisor (an infinity or
  NaN in IEEE 754) is mapped to \<open>NaN\<close>.
\<close>

fun fdiv :: "(real \<Rightarrow> real) \<Rightarrow> float64 \<Rightarrow> float64 \<Rightarrow> float64" where
  "fdiv rnd (Val a) (Val b) = (if b = 0 then NaN else Val (rnd (a / b)))"
| "fdiv rnd _ _ = NaN"

text \<open>
  \<open>timeseries.Time\<close> and \<open>timeseries.Duration\<close> are \<open>int64\<close> counts of seconds. They
  are modelled as unbounded integers: the only arithmetic on them is the difference of
  two timestamps.
\<close>

type_synonym Time = int
type_synonym Duration = int

text \<open>
  The conversion \<open>timeseries.Duration(x)\<close> of a \<open>float64\<close>: Go truncates towards zero.
  For NaN and for values outside \<open>int64\<close> the result is implementation-dependent;
  the value written here is the one of amd64 (the smallest \<open>int64\<close>).
\<close>

definition Duration :: "float64 \<Rightarrow> Duration" where
  "Duration x =
     (case x of
        NaN \<Rightarrow> - (2 ^ 63)
      | Val r \<Rightarrow>
          (let n = (if 0 \<le> r then \<lfloor>r\<rfloor> else \<lceil>r\<rceil>)
           in if - (2 ^ 63) \<le> n \<and> n < 2 ^ 63 then n else - (2 ^ 63)))"

text \<open>
  Modelled from the spec: the package \<open>timeseries\<close> is not among the sources. A
  \<open>TimeSeries\<close> is "an immutable ordered sequence of Sample", a Sample is
  "(Instant, value) where value may be NaN meaning no data". The list is in
  chronological order, oldest first. A \<open>nil\<close> series is the series with no sample.
\<close>

type_synonym TimeSeries = "(Time \<times> float64) list"

text \<open>Modelled from the spec: \<open>IsEmpty\<close> holds when the series "has no sample".\<close>

definition IsEmpty :: "TimeSeries \<Rightarrow> bool" where
  "IsEmpty ts = (ts = [])"

text \<open>
  Modelled from the spec: \<open>Last\<close> is the value at the latest instant of the series, and
  NaN for a series with no sample.
\<close>

definition Last :: "TimeSeries \<Rightarrow> float64" where
  "Last ts = (case ts of [] \<Rightarrow> NaN | _ \<Rightarrow> snd (last ts))"

text \<open>
  Modelled from the spec: \<open>LastNotNull\<close> is the "latest non-NaN sample", and
  \<open>(0, NaN)\<close> when there is none.
\<close>

definition LastNotNull :: "TimeSeries \<Rightarrow> Time \<times> float64" where
  "LastNotNull ts =
     (case filter (\<lambda>(t, v). \<not> IsNaN v) ts of
        [] \<Rightarrow> (0, NaN)
      | xs \<Rightarrow> last xs)"

text \<open>Modelled from the spec: the value of a series at an instant, NaN where it has no sample.\<close>

definition valueAt :: "TimeSeries \<Rightarrow> Time \<Rightarrow> float64" where
  "valueAt ts t = (case map_of ts t of None \<Rightarrow> NaN | Some v \<Rightarrow> v)"

text \<open>
  Modelled from the spec: \<open>Aggregate2\<close> combines two series on the same instants
  pointwise with the given function.
\<close>

definition Aggregate2 ::
  "TimeSeries \<Rightarrow> TimeSeries \<Rightarrow> (float64 \<Rightarrow> float64 \<Rightarrow> float64) \<Rightarrow> TimeSeries" where
  "Aggregate2 x y f = map (\<lambda>(t, a). (t, f a (valueAt y t))) x"

section \<open>Checks and table cells\<close>

text \<open>
  Modelled from the spec: \<open>model.Check\<close> is not among the sources. A check has a
  threshold and records violating items ("set semantics, idempotent per name",
  "insertion-ordered, dedup by name"), a running counter, or a last value.
\<close>

record Check =
  Threshold :: float64
  items :: "string list"
  counter :: int
  lastValue :: float64

text \<open>
  Modelled from the spec: \<open>AddItem\<close> "records a violating entity, idempotent per name".
\<close>

definition AddItem :: "Check \<Rightarrow> string \<Rightarrow> Check" where
  "AddItem c name = (if name \<in> set (items c) then c else c\<lparr>items := items c @ [name]\<rparr>)"

text \<open>Modelled from the spec: \<open>SetValue\<close> is the "last-write-wins scalar".\<close>

definition SetValue :: "Check \<Rightarrow> float64 \<Rightarrow> Check" where
  "SetValue c v = c\<lparr>lastValue := v\<rparr>"

text \<open>Modelled from the spec: \<open>Inc\<close> is the "running accumulation".\<close>

definition Inc :: "Check \<Rightarrow> int \<Rightarrow> Check" where
  "Inc c d = c\<lparr>counter := counter c + d\<rparr>"

text \<open>
  Modelled from the spec: \<open>model.TableCell\<close> is not among the sources. The cell of the
  replication lag is "formatted byte value + unit, optional time tag"; these are the
  fields \<open>checkReplicationLag\<close> writes.
\<close>

record TableCell =
  Value :: string
  Unit :: string
  Tags :: "string list"

definition emptyCell :: TableCell where
  "emptyCell = \<lparr>Value = [], Unit = [], Tags = []\<rparr>"

text \<open>
  Modelled from the spec: \<open>model.ClusterRole\<close> is "a per-instance role enumeration
  {primary, replica, unknown}".
\<close>

datatype ClusterRole = ClusterRoleNone | ClusterRolePrimary | ClusterRoleReplica

section \<open>Replication lag\<close>

text \<open>
  \<open>pgReplicationLag\<close>. \<open>byteLag\<close> is the function literal it passes to
  \<open>timeseries.Aggregate2\<close>: the difference of the two positions, and zero where the
  difference is negative.
\<close>

definition byteLag :: "float64 \<Rightarrow> float64 \<Rightarrow> float64" where
  "byteLag primary replay =
     (let res = fsub primary replay
      in if flt res (Val 0) then Val 0 else res)"

definition pgReplicationLag :: "TimeSeries \<Rightarrow> TimeSeries \<Rightarrow> TimeSeries" where
  "pgReplicationLag primaryLsn replayLsn = Aggregate2 primaryLsn replayLsn byteLag"

text \<open>
  The loop of \<open>checkReplicationLag\<close> over the iterator of \<open>primaryLsn\<close>, oldest sample
  first. The state of the loop is \<open>tPast\<close>; \<open>t\<close> and \<open>vPast\<close> are not read after the
  loop. The first branch is the \<open>continue\<close>, the second the \<open>break\<close>.
\<close>

fun scan :: "float64 \<Rightarrow> float64 \<Rightarrow> TimeSeries \<Rightarrow> Time \<Rightarrow> Time" where
  "scan vCurr lagLast [] tPast = tPast"
| "scan vCurr lagLast ((t, vPast) # rest) tPast =
     (if fgt vPast vCurr then scan vCurr lagLast rest tPast
      else if fgt vPast (fsub vCurr lagLast) then tPast
      else scan vCurr lagLast rest t)"

text \<open>The values computed after the early returns of \<open>checkReplicationLag\<close>.\<close>

definition tPastOf :: "TimeSeries \<Rightarrow> float64 \<Rightarrow> Time" where
  "tPastOf primaryLsn lagLast = scan (snd (LastNotNull primaryLsn)) lagLast primaryLsn 0"

definition lagTimeOf :: "TimeSeries \<Rightarrow> float64 \<Rightarrow> Duration" where
  "lagTimeOf primaryLsn lagLast = fst (LastNotNull primaryLsn) - tPastOf primaryLsn lagLast"

definition greaterThanWorldWindow :: "Time \<Rightarrow> string" where
  "greaterThanWorldWindow tPast = (if tPast = 0 then ''>'' else [])"

text \<open>
  \<open>checkReplicationLag\<close>. The formatting helpers \<open>utils.FormatBytes\<close> and
  \<open>utils.FormatDuration\<close> are not among the sources and are parameters. The result is
  the table cell and the check after the call.
\<close>

definition checkReplicationLag ::
  "(float64 \<Rightarrow> string \<times> string) \<Rightarrow> (Duration \<Rightarrow> nat \<Rightarrow> string) \<Rightarrow>
   string \<Rightarrow> TimeSeries \<Rightarrow> TimeSeries \<Rightarrow> ClusterRole \<Rightarrow> Check \<Rightarrow> TableCell \<times> Check" where
  "checkReplicationLag FormatBytes FormatDuration instanceName primaryLsn lag role check =
     (let res = emptyCell in
      if IsEmpty primaryLsn then (res, check)
      else if role \<noteq> ClusterRoleReplica then (res, check)
      else
        let lagLast = Last lag in
        if IsNaN lagLast then (res, check)
        else
          let tCurr = fst (LastNotNull primaryLsn);
              tPast = tPastOf primaryLsn lagLast;
              lagTime = tCurr - tPast;
              check' = (if lagTime > Duration (Threshold check)
                        then AddItem check instanceName else check);
              res' = res\<lparr>Value := fst (FormatBytes lagLast), Unit := snd (FormatBytes lagLast)\<rparr>;
              res'' = (if lagTime > 0
                       then res'\<lparr>Tags := Tags res' @
                              [greaterThanWorldWindow tPast @ FormatDuration lagTime 1]\<rparr>
                       else res')
          in (res'', check'))"

text \<open>
  The samples the loop assigns to \<open>tPast\<close>, in order: of the samples that are not
  skipped (\<open>v > vCurr\<close> is false), those before the first one at which the loop breaks
  (\<open>v > vCurr - lagLast\<close>).
\<close>

definition tracked :: "float64 \<Rightarrow> float64 \<Rightarrow> TimeSeries \<Rightarrow> TimeSeries" where
  "tracked vCurr lagLast ts =
     takeWhile (\<lambda>(t, v). \<not> fgt v (fsub vCurr lagLast))
       (filter (\<lambda>(t, v). \<not> fgt v vCurr) ts)"

text \<open>
  The scan as the specification words it: among the samples that are not skipped, the
  time of the most recent one for which \<open>v \<ge> vCurr - lagLast\<close> still held, stopping at
  the first sample with \<open>v < vCurr - lagLast\<close>.
\<close>

fun scan_spec :: "float64 \<Rightarrow> float64 \<Rightarrow> TimeSeries \<Rightarrow> Time \<Rightarrow> Time" where
  "scan_spec vCurr lagLast [] tPast = tPast"
| "scan_spec vCurr lagLast ((t, vPast) # rest) tPast =
     (if fgt vPast vCurr then scan_spec vCurr lagLast rest tPast
      else if flt vPast (fsub vCurr lagLast) then tPast
      else scan_spec vCurr lagLast rest t)"

section \<open>Connections\<close>

text \<open>
  Modelled from the spec: \<open>timeseries.NanSum\<close>, the combinator that "sums all non-NaN
  inputs" and is NaN "only if literally none are defined".
\<close>

fun NanSum :: "float64 \<Rightarrow> float64 \<Rightarrow> float64" where
  "NanSum NaN y = y"
| "NanSum x NaN = x"
| "NanSum (Val a) (Val b) = Val (a + b)"

text \<open>
  Modelled from the spec: \<open>timeseries.Aggregate\<close>, an "accumulator over \<ge>0 read-only
  input TimeSeries" built with a combinator. \<open>Add\<close> "appends one input". \<open>Get\<close>
  "produces one output TimeSeries": at each instant of the inputs (which share their
  instants) the combination of the values of all inputs there, an input with no sample at
  the instant counting as NaN; with no input that has a sample, the output has no sample.
\<close>

record Aggregate =
  combinator :: "float64 \<Rightarrow> float64 \<Rightarrow> float64"
  inputs :: "TimeSeries list"

text \<open>Modelled from the spec: \<open>NewAggregate\<close> starts an aggregate with zero inputs.\<close>

definition NewAggregate :: "(float64 \<Rightarrow> float64 \<Rightarrow> float64) \<Rightarrow> Aggregate" where
  "NewAggregate f = \<lparr>combinator = f, inputs = []\<rparr>"

text \<open>Modelled from the spec: \<open>Add\<close> "appends one input".\<close>

definition Add :: "Aggregate \<Rightarrow> TimeSeries \<Rightarrow> Aggregate" where
  "Add a ts = a\<lparr>inputs := inputs a @ [ts]\<rparr>"

text \<open>
  Modelled from the spec: \<open>Get\<close> returns the combined series; its instants are those of
  the first input that has a sample.
\<close>

definition Get :: "Aggregate \<Rightarrow> TimeSeries" where
  "Get a =
     (case filter (\<lambda>ts. \<not> IsEmpty ts) (inputs a) of
        [] \<Rightarrow> []
      | x # _ \<Rightarrow>
          map (\<lambda>(t, _). (t, foldl (combinator a) NaN (map (\<lambda>ts. valueAt ts t) (inputs a)))) x)"

text \<open>
  Modelled from the spec: \<open>model.PgConnectionKey\<close> is not among the sources. A key is a
  "(raw state label, optional wait-event qualifier)"; these are the two fields
  \<open>pgConnections\<close> reads for the buckets.
\<close>

record PgConnectionKey =
  State :: string
  WaitEventType :: string

definition pgActiveLockedState :: string where
  "pgActiveLockedState = ''active (locked)''"

text \<open>The bucket of a key: the variable \<open>state\<close> of the first loop of \<open>pgConnections\<close>.\<close>

definition bucketOf :: "PgConnectionKey \<Rightarrow> string" where
  "bucketOf k =
     (if State k = ''active'' \<and> WaitEventType k = ''Lock'' then pgActiveLockedState
      else State k)"

text \<open>
  The first loop of \<open>pgConnections\<close>, over the map \<open>instance.Postgres.Connections\<close>. The
  map is given as the list of its entries in the order the loop visits them. The state
  of the loop is \<open>connectionByState\<close> and \<open>total\<close> (here \<open>tot\<close>).
\<close>

fun connectionsLoop ::
  "(PgConnectionKey \<times> TimeSeries) list \<Rightarrow> (string \<rightharpoonup> Aggregate) \<times> float64 \<Rightarrow>
   (string \<rightharpoonup> Aggregate) \<times> float64" where
  "connectionsLoop [] st = st"
| "connectionsLoop ((k, v) # rest) (connectionByState, tot) =
     (let tot' = (if \<not> IsNaN (Last v) then fadd tot (Last v) else tot);
          state = bucketOf k;
          byState = (case connectionByState state of
                       None \<Rightarrow> NewAggregate NanSum
                     | Some a \<Rightarrow> a)
      in connectionsLoop rest (connectionByState(state \<mapsto> Add byState v), tot'))"

text \<open>
  \<open>instance.Postgres.Settings[name].Samples\<close>: a setting that is absent from the map has
  the \<open>nil\<close> series.
\<close>

definition Samples :: "(string \<rightharpoonup> TimeSeries) \<Rightarrow> string \<Rightarrow> TimeSeries" where
  "Samples settings name = (case settings name of None \<Rightarrow> [] | Some ts \<Rightarrow> ts)"

text \<open>
  The second loop of \<open>pgConnections\<close>, over the names of the reserved settings. The key
  \<open>reserved\<close> is in the map when the loop starts, so the case \<open>None\<close> is never taken.
\<close>

fun reservedLoop ::
  "(string \<rightharpoonup> TimeSeries) \<Rightarrow> string list \<Rightarrow> (string \<rightharpoonup> Aggregate) \<times> float64 \<Rightarrow>
   (string \<rightharpoonup> Aggregate) \<times> float64" where
  "reservedLoop settings [] st = st"
| "reservedLoop settings (setting # rest) (connectionByState, tot) =
     (let v = Samples settings setting;
          connectionByState' =
            (case connectionByState ''reserved'' of
               None \<Rightarrow> connectionByState
             | Some a \<Rightarrow> connectionByState(''reserved'' \<mapsto> Add a v));
          tot' = (if \<not> IsNaN (Last v) then fadd tot (Last v) else tot)
      in reservedLoop settings rest (connectionByState', tot'))"

definition reservedSettings :: "string list" where
  "reservedSettings = [''superuser_reserved_connections'', ''rds.rds_superuser_reserved_connections'']"

text \<open>
  \<open>pgConnections\<close> up to the chart of the connection states. The result holds the map
  \<open>connectionByState\<close>, \<open>total\<close>, the check after the call and the series handed to the
  chart under each state. The two top-5 charts that follow do not touch any of these.
\<close>

record ConnectionsResult =
  byState :: "string \<rightharpoonup> Aggregate"
  totalConnections :: float64
  connectionsCheck :: Check
  chartSeries :: "string \<rightharpoonup> TimeSeries"

definition pgConnections ::
  "(real \<Rightarrow> real) \<Rightarrow> string \<Rightarrow> (PgConnectionKey \<times> TimeSeries) list \<Rightarrow> (string \<rightharpoonup> TimeSeries) \<Rightarrow> Check \<Rightarrow>
   ConnectionsResult" where
  "pgConnections rnd instanceName connections settings check =
     (let (m1, tot1) = connectionsLoop connections (Map.empty, Val 0);
          m2 = m1(''reserved'' \<mapsto> NewAggregate NanSum);
          (m3, tot) = reservedLoop settings reservedSettings (m2, tot1);
          maxConn = Last (Samples settings ''max_connections'');
          check' =
            (if fgt maxConn (Val 0) \<and> fgt tot (Val 0)
             then (if fgt (fmul rnd (fdiv rnd tot maxConn) (Val 100)) (Threshold check)
                   then AddItem check instanceName else check)
             else check)
      in \<lparr>byState = m3, totalConnections = tot, connectionsCheck = check',
          chartSeries = (\<lambda>state. map_option Get (m3 state))\<rparr>)"

section \<open>Deployments\<close>

text \<open>
  Modelled from the spec: \<open>model.ApplicationDeploymentState\<close> is not among the sources
  ("a fixed state"). The constructors are the states named by the \<open>switch\<close> of
  \<open>deployments\<close>; \<open>ApplicationDeploymentStateStarted\<close> stands for a state the \<open>switch\<close>
  has no case for.
\<close>

datatype ApplicationDeploymentState =
    ApplicationDeploymentStateStarted
  | ApplicationDeploymentStateInProgress
  | ApplicationDeploymentStateStuck
  | ApplicationDeploymentStateCancelled
  | ApplicationDeploymentStateDeployed
  | ApplicationDeploymentStateSummary

text \<open>
  Modelled from the spec: \<open>model.ApplicationDeploymentStatus\<close> is not among the sources.
  These are the fields of a deployment status that reach the check: its state and
  \<open>Deployment.StartedAt\<close>.
\<close>

record ApplicationDeploymentStatus =
  DeploymentState :: ApplicationDeploymentState
  StartedAt :: Time

text \<open>
  The body of the loop of \<open>deployments\<close>, as far as the check goes: only the case
  \<open>ApplicationDeploymentStateStuck\<close> writes to it. The conversion \<open>float32\<close> is a
  parameter. The table cells built by the body are not modelled.
\<close>

definition deploymentStep ::
  "(Duration \<Rightarrow> float64) \<Rightarrow> Time \<Rightarrow> ApplicationDeploymentStatus \<Rightarrow> Check \<Rightarrow> Check" where
  "deploymentStep float32 now ds deploymentStatusCheck =
     (case DeploymentState ds of
        ApplicationDeploymentStateSummary \<Rightarrow> deploymentStatusCheck
      | ApplicationDeploymentStateDeployed \<Rightarrow> deploymentStatusCheck
      | ApplicationDeploymentStateStuck \<Rightarrow>
          SetValue deploymentStatusCheck (float32 (now - StartedAt ds))
      | ApplicationDeploymentStateInProgress \<Rightarrow> deploymentStatusCheck
      | ApplicationDeploymentStateCancelled \<Rightarrow> deploymentStatusCheck
      | ApplicationDeploymentStateStarted \<Rightarrow> deploymentStatusCheck)"

text \<open>
  The loop \<open>for i := len(statuses) - 1; i >= 0; i--\<close>: \<open>deploymentsLoop \<dots> n\<close> runs the
  body for the indices \<open>n - 1\<close> down to \<open>0\<close>.
\<close>

fun deploymentsLoop ::
  "(Duration \<Rightarrow> float64) \<Rightarrow> Time \<Rightarrow> ApplicationDeploymentStatus list \<Rightarrow> nat \<Rightarrow> Check \<Rightarrow> Check" where
  "deploymentsLoop float32 now statuses 0 check = check"
| "deploymentsLoop float32 now statuses (Suc i) check =
     deploymentsLoop float32 now statuses i (deploymentStep float32 now (statuses ! i) check)"

text \<open>
  \<open>deployments\<close>: nothing is created when the application has no deployment; otherwise
  the check of the report after the loop. The statuses are the result of
  \<open>model.CalcApplicationDeploymentStatuses\<close>, which is not among the sources.
\<close>

definition deployments ::
  "(Duration \<Rightarrow> float64) \<Rightarrow> Time \<Rightarrow> nat \<Rightarrow> ApplicationDeploymentStatus list \<Rightarrow> Check \<Rightarrow>
   Check option" where
  "deployments float32 now numDeployments statuses deploymentStatusCheck =
     (if numDeployments = 0 then None
      else Some (deploymentsLoop float32 now statuses (length statuses) deploymentStatusCheck))"

section \<open>Closed forms used in the statements\<close>

text \<open>The latest value of a series as a number, a series without a latest value counting as 0.\<close>

definition lastOrZero :: "TimeSeries \<Rightarrow> real" where
  "lastOrZero ts = (case Last ts of NaN \<Rightarrow> 0 | Val a \<Rightarrow> a)"

text \<open>The series of the connections that fall into a bucket, in the order of the loop.\<close>

definition seriesOfBucket :: "(PgConnectionKey \<times> TimeSeries) list \<Rightarrow> string \<Rightarrow> TimeSeries list" where
  "seriesOfBucket connections b = map snd (filter (\<lambda>(k, v). bucketOf k = b) connections)"

section \<open>Lemmas on the scan\<close>

lemma tracked_Nil [simp]: "tracked vCurr lagLast [] = []"
  by (simp add: tracked_def)

lemma tracked_Cons:
  "tracked vCurr lagLast ((t, v) # ts) =
     (if fgt v vCurr then tracked vCurr lagLast ts
      else if fgt v (fsub vCurr lagLast) then []
      else (t, v) # tracked vCurr lagLast ts)"
  by (simp add: tracked_def)

lemma scan_tracked:
  "scan vCurr lagLast ts tPast =
     (if tracked vCurr lagLast ts = [] then tPast
      else fst (last (tracked vCurr lagLast ts)))"
proof (induction ts arbitrary: tPast)
  case Nil
  show ?case by simp
next
  case (Cons s ts)
  obtain t v where s: "s = (t, v)" by (cases s)
  show ?case
    using Cons.IH [of tPast] Cons.IH [of t] by (simp add: s tracked_Cons)
qed

lemma scan_append_break:
  "\<not> fgt v vCurr \<Longrightarrow> fgt v (fsub vCurr lagLast) \<Longrightarrow>
   scan vCurr lagLast (pre @ (t, v) # rest) tPast = scan vCurr lagLast pre tPast"
  by (induction pre arbitrary: tPast) auto

lemma tracked_set:
  "(t, v) \<in> set (tracked vCurr lagLast ts) \<Longrightarrow>
     (t, v) \<in> set ts \<and> \<not> fgt v vCurr \<and> \<not> fgt v (fsub vCurr lagLast)"
  unfolding tracked_def
  by (auto dest: set_takeWhileD)

lemma not_fgt_iff: "(\<not> fgt v w) = (fle v w \<or> IsNaN v \<or> IsNaN w)"
  by (cases v; cases w) auto





lemma Duration_nonneg:
  assumes "0 \<le> r" "r < 2 ^ 63"
  shows "(Duration (Val r) < n) = (r < of_int n)"
proof -
  have "\<lfloor>r\<rfloor> < (2 ^ 63 :: int)" using assms(2) by (simp add: floor_less_iff)
  moreover have "0 \<le> \<lfloor>r\<rfloor>" using assms(1) by simp
  ultimately have "Duration (Val r) = \<lfloor>r\<rfloor>"
    using assms(1) by (simp add: Duration_def Let_def)
  then show ?thesis by (simp add: floor_less_iff)
qed

lemma scan_from_sample:
  "scan vCurr lagLast ts tPast = tPast \<or>
     (\<exists>v. (scan vCurr lagLast ts tPast, v) \<in> set ts \<and> \<not> fgt v vCurr \<and> \<not> fgt v (fsub vCurr lagLast))"
proof (cases "tracked vCurr lagLast ts = []")
  case True
  then show ?thesis by (simp add: scan_tracked)
next
  case False
  obtain t v where tv: "last (tracked vCurr lagLast ts) = (t, v)"
    by (cases "last (tracked vCurr lagLast ts)")
  have "(t, v) \<in> set (tracked vCurr lagLast ts)"
    using False tv by (metis last_in_set)
  then have "(t, v) \<in> set ts \<and> \<not> fgt v vCurr \<and> \<not> fgt v (fsub vCurr lagLast)"
    by (rule tracked_set)
  moreover have "scan vCurr lagLast ts tPast = t"
    using False tv by (simp add: scan_tracked)
  ultimately show ?thesis by blast
qed

lemma checkReplicationLag_skip:
  "IsEmpty primaryLsn \<or> IsNaN (Last lag) \<or> role \<noteq> ClusterRoleReplica \<Longrightarrow>
   checkReplicationLag FormatBytes FormatDuration instanceName primaryLsn lag role check =
     (emptyCell, check)"
  by (auto simp: checkReplicationLag_def Let_def)

lemma checkReplicationLag_eval:
  "\<not> IsEmpty primaryLsn \<Longrightarrow> \<not> IsNaN (Last lag) \<Longrightarrow> role = ClusterRoleReplica \<Longrightarrow>
   checkReplicationLag FormatBytes FormatDuration instanceName primaryLsn lag role check =
     (\<lparr>Value = fst (FormatBytes (Last lag)), Unit = snd (FormatBytes (Last lag)),
       Tags = (if lagTimeOf primaryLsn (Last lag) > 0
               then [greaterThanWorldWindow (tPastOf primaryLsn (Last lag)) @
                     FormatDuration (lagTimeOf primaryLsn (Last lag)) 1]
               else [])\<rparr>,
      if lagTimeOf primaryLsn (Last lag) > Duration (Threshold check)
      then AddItem check instanceName else check)"
  by (simp add: checkReplicationLag_def Let_def lagTimeOf_def emptyCell_def)

lemma AddItem_items: "set (items (AddItem c name)) = insert name (set (items c))"
  by (auto simp: AddItem_def)

section \<open>Replication lag: the scan\<close>

text \<open>
  Claim C1, as the code has it. In the scan of \<open>checkReplicationLag\<close> over the
  primary-position series, oldest sample first, \<open>tPast\<close> ends as the time of the most
  recent tracked sample, and stays at its initial value (time zero) when no sample is
  tracked. The tracked samples are, among the samples not skipped for \<open>v > vCurr\<close>,
  those read before the scan stops, and for each of them \<open>v > vCurr - lagLast\<close> is
  false (so \<open>v \<le> vCurr - lagLast\<close>, or a NaN is involved). The scan stops at the first
  sample that is not skipped and has \<open>v > vCurr - lagLast\<close>: whatever follows such a
  sample does not change the result. The direction of the comparison is the reverse of
  the one in the claim's wording.
\<close>

theorem scan_tracks_until_exceeding:
  "scan vCurr lagLast ts 0 =
     (if tracked vCurr lagLast ts = [] then 0 else fst (last (tracked vCurr lagLast ts))) \<and>
   (\<forall>(t, v) \<in> set (tracked vCurr lagLast ts).
      (t, v) \<in> set ts \<and> \<not> fgt v vCurr \<and> \<not> fgt v (fsub vCurr lagLast)) \<and>
   (\<not> fgt v vCurr \<and> fgt v (fsub vCurr lagLast) \<longrightarrow>
      scan vCurr lagLast (pre @ (t, v) # rest) tPast = scan vCurr lagLast pre tPast)"
  using scan_tracked [of vCurr lagLast ts 0] tracked_set [of _ _ vCurr lagLast ts]
    scan_append_break [of v vCurr lagLast pre t rest tPast]
  by auto

text \<open>
  The ten samples of a position that grows by 100 per minute, with a byte lag of 500:
  the scan ends at the sample of value 500, five steps before the latest one, and a
  sample of value 600 stops it.
\<close>

theorem scan_tracks_until_exceeding_witness:
  "scan (Val 1000) (Val 500)
     [(60, Val 100), (120, Val 200), (180, Val 300), (240, Val 400), (300, Val 500),
      (360, Val 600), (420, Val 700), (480, Val 800), (540, Val 900), (600, Val 1000)] 0 = 300 \<and>
   tracked (Val 1000) (Val 500)
     [(60, Val 100), (120, Val 200), (180, Val 300), (240, Val 400), (300, Val 500),
      (360, Val 600), (420, Val 700), (480, Val 800), (540, Val 900), (600, Val 1000)] =
     [(60, Val 100), (120, Val 200), (180, Val 300), (240, Val 400), (300, Val 500)] \<and>
   \<not> fgt (Val 600) (Val 1000) \<and> fgt (Val 600) (fsub (Val 1000) (Val 500)) \<and>
   scan (Val 1000) (Val 500)
     ([(60, Val 100), (120, Val 200), (180, Val 300), (240, Val 400), (300, Val 500)] @
      (360, Val 600) # [(420, Val 700), (480, Val 800), (540, Val 900), (600, Val 1000)]) 0 =
   scan (Val 1000) (Val 500)
     [(60, Val 100), (120, Val 200), (180, Val 300), (240, Val 400), (300, Val 500)] 0"
  using scan_tracks_until_exceeding [of "Val 1000" "Val 500"
      "[(60, Val 100), (120, Val 200), (180, Val 300), (240, Val 400), (300, Val 500),
        (360, Val 600), (420, Val 700), (480, Val 800), (540, Val 900), (600, Val 1000)]"
      "Val 600"
      "[(60, Val 100), (120, Val 200), (180, Val 300), (240, Val 400), (300, Val 500)]"
      360 "[(420, Val 700), (480, Val 800), (540, Val 900), (600, Val 1000)]" 0]
  by (simp add: tracked_def)

text \<open>
  On the same series the scan worded as in the claim (track while \<open>v \<ge> vCurr - lagLast\<close>,
  stop at \<open>v < vCurr - lagLast\<close>) stops at the very first sample and leaves \<open>tPast\<close> at
  zero, whereas the code ends at 300.
\<close>

theorem scan_differs_from_spec_wording:
  "scan (Val 1000) (Val 500)
     [(60, Val 100), (120, Val 200), (180, Val 300), (240, Val 400), (300, Val 500),
      (360, Val 600), (420, Val 700), (480, Val 800), (540, Val 900), (600, Val 1000)] 0 = 300 \<and>
   scan_spec (Val 1000) (Val 500)
     [(60, Val 100), (120, Val 200), (180, Val 300), (240, Val 400), (300, Val 500),
      (360, Val 600), (420, Val 700), (480, Val 800), (540, Val 900), (600, Val 1000)] 0 = 0"
  by simp

text \<open>
  Claim C4, as the code has it. A sample with \<open>v > vCurr\<close> is skipped and is never
  the one \<open>tPast\<close> is assigned from: whenever the scan changes \<open>tPast\<close>, the new value is
  the time of a sample of the series for which \<open>v > vCurr\<close> is false, that is, a sample
  with \<open>v \<le> vCurr\<close> or a sample without data (NaN, or \<open>vCurr\<close> is NaN); and when the
  instants of the series are distinct, no sample at that time has \<open>v > vCurr\<close>.
\<close>

theorem skipped_sample_never_tPast:
  "(scan vCurr lagLast ts tPast \<noteq> tPast \<longrightarrow>
      (\<exists>v. (scan vCurr lagLast ts tPast, v) \<in> set ts \<and> \<not> fgt v vCurr \<and>
           (fle v vCurr \<or> IsNaN v \<or> IsNaN vCurr))) \<and>
   (distinct (map fst ts) \<and> scan vCurr lagLast ts tPast \<noteq> tPast \<longrightarrow>
      (\<forall>v. (scan vCurr lagLast ts tPast, v) \<in> set ts \<longrightarrow> \<not> fgt v vCurr))"
proof (intro conjI impI)
  assume "scan vCurr lagLast ts tPast \<noteq> tPast"
  then show "\<exists>v. (scan vCurr lagLast ts tPast, v) \<in> set ts \<and> \<not> fgt v vCurr \<and>
           (fle v vCurr \<or> IsNaN v \<or> IsNaN vCurr)"
    using scan_from_sample [of vCurr lagLast ts tPast] not_fgt_iff by blast
next
  assume a: "distinct (map fst ts) \<and> scan vCurr lagLast ts tPast \<noteq> tPast"
  then obtain v where v: "(scan vCurr lagLast ts tPast, v) \<in> set ts" "\<not> fgt v vCurr"
    using scan_from_sample [of vCurr lagLast ts tPast] by blast
  show "\<forall>w. (scan vCurr lagLast ts tPast, w) \<in> set ts \<longrightarrow> \<not> fgt w vCurr"
  proof (intro allI impI)
    fix w assume "(scan vCurr lagLast ts tPast, w) \<in> set ts"
    then have "w = v" using v(1) a by (meson eq_key_imp_eq_value)
    then show "\<not> fgt w vCurr" using v(2) by simp
  qed
qed

theorem skipped_sample_never_tPast_witness:
  "scan (Val 1000) (Val 200) [(60, Val 1500), (120, Val 700), (180, Val 1000)] 0 = 120 \<and>
   distinct (map fst ([(60, Val 1500), (120, Val 700), (180, Val 1000)] :: TimeSeries)) \<and>
   (\<exists>v. (120, v) \<in> set ([(60, Val 1500), (120, Val 700), (180, Val 1000)] :: TimeSeries) \<and>
        \<not> fgt v (Val 1000) \<and> (fle v (Val 1000) \<or> IsNaN v \<or> IsNaN (Val 1000))) \<and>
   \<not> fgt (Val 700) (Val 1000)"
  using skipped_sample_never_tPast [of "Val 1000" "Val 200"
      "[(60, Val 1500), (120, Val 700), (180, Val 1000)]" 0]
  by simp

text \<open>
  A series with a gap: the sample at time 10 has no data. The scan assigns \<open>tPast\<close>
  from it, and \<open>v \<le> vCurr\<close> does not hold for it.
\<close>

theorem tPast_from_sample_without_data:
  "tPastOf [(10, NaN), (20, Val 5)] (Val 3) = 10 \<and>
   valueAt [(10, NaN), (20, Val 5)] 10 = NaN \<and>
   snd (LastNotNull [(10, NaN), (20, Val 5)]) = Val 5 \<and>
   \<not> fle (valueAt [(10, NaN), (20, Val 5)] 10) (snd (LastNotNull [(10, NaN), (20, Val 5)]))"
  by (simp add: tPastOf_def LastNotNull_def valueAt_def)

section \<open>Replication lag: the check and the cell\<close>

text \<open>
  Claim C2. \<open>checkReplicationLag\<close> returns the empty cell and the check as it was when
  the primary-position series has no sample, the latest byte lag is NaN, or the role is
  not replica. In every other case it evaluates the check: the cell carries the
  formatted byte lag, and the check after the call is the check with the instance added
  if the time lag is greater than the threshold (converted to a duration) and the
  unchanged check otherwise; so the instance is among the items afterwards exactly when
  it was there before or the time lag exceeds the threshold. For a threshold that is a
  non-negative number within \<open>int64\<close> the comparison is the one with the threshold
  itself.
\<close>

theorem checkReplicationLag_result:
  "(IsEmpty primaryLsn \<or> IsNaN (Last lag) \<or> role \<noteq> ClusterRoleReplica \<longrightarrow>
      checkReplicationLag FormatBytes FormatDuration instanceName primaryLsn lag role check =
        (emptyCell, check)) \<and>
   (\<not> (IsEmpty primaryLsn \<or> IsNaN (Last lag) \<or> role \<noteq> ClusterRoleReplica) \<longrightarrow>
      Value (fst (checkReplicationLag FormatBytes FormatDuration instanceName primaryLsn lag role check))
        = fst (FormatBytes (Last lag)) \<and>
      Unit (fst (checkReplicationLag FormatBytes FormatDuration instanceName primaryLsn lag role check))
        = snd (FormatBytes (Last lag)) \<and>
      snd (checkReplicationLag FormatBytes FormatDuration instanceName primaryLsn lag role check)
        = (if lagTimeOf primaryLsn (Last lag) > Duration (Threshold check)
           then AddItem check instanceName else check) \<and>
      (instanceName \<in> set (items (snd (checkReplicationLag FormatBytes FormatDuration
            instanceName primaryLsn lag role check)))
        \<longleftrightarrow> instanceName \<in> set (items check) \<or>
            lagTimeOf primaryLsn (Last lag) > Duration (Threshold check)) \<and>
      (\<forall>r. Threshold check = Val r \<and> 0 \<le> r \<and> r < 2 ^ 63 \<longrightarrow>
         (instanceName \<in> set (items (snd (checkReplicationLag FormatBytes FormatDuration
            instanceName primaryLsn lag role check)))
           \<longleftrightarrow> instanceName \<in> set (items check) \<or>
               r < of_int (lagTimeOf primaryLsn (Last lag)))))"
proof (intro conjI impI)
  assume "IsEmpty primaryLsn \<or> IsNaN (Last lag) \<or> role \<noteq> ClusterRoleReplica"
  then show "checkReplicationLag FormatBytes FormatDuration instanceName primaryLsn lag role check =
        (emptyCell, check)" by (rule checkReplicationLag_skip)
next
  assume a: "\<not> (IsEmpty primaryLsn \<or> IsNaN (Last lag) \<or> role \<noteq> ClusterRoleReplica)"
  note e = checkReplicationLag_eval [of primaryLsn lag role FormatBytes FormatDuration instanceName check]
  show "Value (fst (checkReplicationLag FormatBytes FormatDuration instanceName primaryLsn lag role check))
        = fst (FormatBytes (Last lag))" using a e by simp
  show "Unit (fst (checkReplicationLag FormatBytes FormatDuration instanceName primaryLsn lag role check))
        = snd (FormatBytes (Last lag))" using a e by simp
  show s: "snd (checkReplicationLag FormatBytes FormatDuration instanceName primaryLsn lag role check)
        = (if lagTimeOf primaryLsn (Last lag) > Duration (Threshold check)
           then AddItem check instanceName else check)" using a e by simp
  show i: "(instanceName \<in> set (items (snd (checkReplicationLag FormatBytes FormatDuration
            instanceName primaryLsn lag role check)))
        \<longleftrightarrow> instanceName \<in> set (items check) \<or>
            lagTimeOf primaryLsn (Last lag) > Duration (Threshold check))"
    by (simp add: s AddItem_items)
  show "\<forall>r. Threshold check = Val r \<and> 0 \<le> r \<and> r < 2 ^ 63 \<longrightarrow>
         (instanceName \<in> set (items (snd (checkReplicationLag FormatBytes FormatDuration
            instanceName primaryLsn lag role check)))
           \<longleftrightarrow> instanceName \<in> set (items check) \<or>
               r < of_int (lagTimeOf primaryLsn (Last lag)))"
    using i by (auto simp: Duration_nonneg)
qed

theorem checkReplicationLag_result_witness:
  "\<not> (IsEmpty [(60, Val 100), (120, Val 200), (180, Val 300)] \<or> IsNaN (Last [(180, Val 100)]) \<or>
      ClusterRoleReplica \<noteq> ClusterRoleReplica) \<and>
   lagTimeOf [(60, Val 100), (120, Val 200), (180, Val 300)] (Last [(180, Val 100)]) = 60 \<and>
   checkReplicationLag (\<lambda>b. (''100'', ''B'')) (\<lambda>d n. ''1m'') ''pg-1''
        [(60, Val 100), (120, Val 200), (180, Val 300)] [(180, Val 100)] ClusterRoleReplica
        \<lparr>Threshold = Val 30, items = [], counter = 0, lastValue = NaN\<rparr> =
     (\<lparr>Value = ''100'', Unit = ''B'', Tags = [''1m'']\<rparr>,
      \<lparr>Threshold = Val 30, items = [''pg-1''], counter = 0, lastValue = NaN\<rparr>) \<and>
   (ClusterRolePrimary \<noteq> ClusterRoleReplica) \<and>
   checkReplicationLag (\<lambda>b. (''100'', ''B'')) (\<lambda>d n. ''1m'') ''pg-1''
        [(60, Val 100), (120, Val 200), (180, Val 300)] [(180, Val 100)] ClusterRolePrimary
        \<lparr>Threshold = Val 30, items = [], counter = 0, lastValue = NaN\<rparr> =
     (emptyCell, \<lparr>Threshold = Val 30, items = [], counter = 0, lastValue = NaN\<rparr>)"
  using checkReplicationLag_result [of "[(60, Val 100), (120, Val 200), (180, Val 300)]" "[(180, Val 100)]" ClusterRoleReplica "\<lambda>b. (''100'', ''B'')" "\<lambda>d n. ''1m''" "''pg-1''"
      "\<lparr>Threshold = Val 30, items = [], counter = 0, lastValue = NaN\<rparr>"]
    checkReplicationLag_result [of "[(60, Val 100), (120, Val 200), (180, Val 300)]" "[(180, Val 100)]" ClusterRolePrimary "\<lambda>b. (''100'', ''B'')" "\<lambda>d n. ''1m''" "''pg-1''"
      "\<lparr>Threshold = Val 30, items = [], counter = 0, lastValue = NaN\<rparr>"]
  by (simp add: checkReplicationLag_def IsEmpty_def Last_def LastNotNull_def lagTimeOf_def
      tPastOf_def Duration_def AddItem_def emptyCell_def greaterThanWorldWindow_def)







text \<open>
  Claim C10. When the call passes the early returns and the scan tracks no sample,
  \<open>tPast\<close> is still the zero timestamp, the time lag is \<open>tCurr\<close> minus zero, and this
  duration is what is compared with the threshold: the instance is added to the check
  whenever \<open>tCurr\<close> itself exceeds the threshold.
\<close>

theorem lower_bound_compares_tCurr:
  assumes "\<not> IsEmpty primaryLsn" and "\<not> IsNaN (Last lag)" and "role = ClusterRoleReplica"
    and "tracked (snd (LastNotNull primaryLsn)) (Last lag) primaryLsn = []"
  shows "tPastOf primaryLsn (Last lag) = 0 \<and>
     lagTimeOf primaryLsn (Last lag) = fst (LastNotNull primaryLsn) - 0 \<and>
     snd (checkReplicationLag FormatBytes FormatDuration instanceName primaryLsn lag role check) =
       (if fst (LastNotNull primaryLsn) > Duration (Threshold check)
        then AddItem check instanceName else check)"
proof -
  have tp: "tPastOf primaryLsn (Last lag) = 0"
    using assms(4) by (simp add: tPastOf_def scan_tracked)
  then have lt: "lagTimeOf primaryLsn (Last lag) = fst (LastNotNull primaryLsn) - 0"
    by (simp add: lagTimeOf_def)
  show ?thesis
    using tp lt assms checkReplicationLag_eval [of primaryLsn lag role FormatBytes FormatDuration instanceName check]
    by simp
qed

theorem lower_bound_compares_tCurr_witness:
  "\<not> IsEmpty [(60, Val 900), (120, Val 1000)] \<and> \<not> IsNaN (Last [(120, Val 500)]) \<and>
   tracked (snd (LastNotNull [(60, Val 900), (120, Val 1000)])) (Last [(120, Val 500)])
     [(60, Val 900), (120, Val 1000)] = [] \<and>
   tPastOf [(60, Val 900), (120, Val 1000)] (Last [(120, Val 500)]) = 0 \<and>
   lagTimeOf [(60, Val 900), (120, Val 1000)] (Last [(120, Val 500)]) = 120 \<and>
   snd (checkReplicationLag (\<lambda>b. (''100'', ''B'')) (\<lambda>d n. ''1m'') ''pg-1''
        [(60, Val 900), (120, Val 1000)] [(120, Val 500)] ClusterRoleReplica
        \<lparr>Threshold = Val 30, items = [], counter = 0, lastValue = NaN\<rparr>) =
     \<lparr>Threshold = Val 30, items = [''pg-1''], counter = 0, lastValue = NaN\<rparr>"
proof -
  have e1: "\<not> IsEmpty [(60, Val 900), (120, Val 1000)]" by (simp add: IsEmpty_def)
  have n1: "\<not> IsNaN (Last [(120, Val 500)])" by (simp add: Last_def)
  have t1: "tracked (snd (LastNotNull [(60, Val 900), (120, Val 1000)])) (Last [(120, Val 500)])
     [(60, Val 900), (120, Val 1000)] = []"
    by (simp add: tracked_def Last_def LastNotNull_def)
  show ?thesis
    using e1 n1 t1
      lower_bound_compares_tCurr [OF e1 n1 refl t1, of "\<lambda>b. (''100'', ''B'')" "\<lambda>d n. ''1m''" "''pg-1''"
        "\<lparr>Threshold = Val 30, items = [], counter = 0, lastValue = NaN\<rparr>"]
    by (simp add: LastNotNull_def Duration_def AddItem_def)
qed

section \<open>Lemmas on the byte lag, the deployments and the connections\<close>

lemma map_of_map_key:
  "map_of (map (\<lambda>(t, a). (t, g t a)) xs) k = map_option (g k) (map_of xs k)"
  by (induction xs) auto

lemma valueAt_Aggregate2:
  "valueAt x t = Val a \<Longrightarrow> valueAt (Aggregate2 x y f) t = f (Val a) (valueAt y t)"
  by (auto simp: valueAt_def Aggregate2_def map_of_map_key split: option.splits)

lemma byteLag_Val: "byteLag (Val p) (Val r) = Val (if p - r < 0 then 0 else p - r)"
  by (simp add: byteLag_def Let_def)

lemma byteLag_not_negative: "\<not> flt (byteLag a b) (Val 0)"
  by (cases a; cases b) (auto simp: byteLag_def Let_def)

lemma SetValue_SetValue: "SetValue (SetValue c a) b = SetValue c b"
  by (simp add: SetValue_def)

lemma deploymentStep_cases:
  "deploymentStep float32 now ds c =
     (if DeploymentState ds = ApplicationDeploymentStateStuck
      then SetValue c (float32 (now - StartedAt ds)) else c)"
  by (cases "DeploymentState ds") (simp_all add: deploymentStep_def)

lemma find_snoc:
  "find P (xs @ [x]) = (case find P xs of None \<Rightarrow> (if P x then Some x else None) | Some y \<Rightarrow> Some y)"
  by (induction xs) auto

lemma deploymentsLoop_find:
  "n \<le> length statuses \<Longrightarrow>
   deploymentsLoop float32 now statuses n c =
     (case find (\<lambda>ds. DeploymentState ds = ApplicationDeploymentStateStuck) (take n statuses) of
        None \<Rightarrow> c
      | Some ds \<Rightarrow> SetValue c (float32 (now - StartedAt ds)))"
proof (induction n arbitrary: c)
  case 0
  show ?case by simp
next
  case (Suc i)
  then have i: "i < length statuses" by simp
  have t: "take (Suc i) statuses = take i statuses @ [statuses ! i]"
    using i by (simp add: take_Suc_conv_app_nth)
  show ?case
    using Suc.IH [of "deploymentStep float32 now (statuses ! i) c"] i
    by (simp add: t find_snoc deploymentStep_cases SetValue_SetValue split: option.splits)
qed

lemma find_least:
  "i < length xs \<Longrightarrow> P (xs ! i) \<Longrightarrow> \<forall>j<i. \<not> P (xs ! j) \<Longrightarrow> find P xs = Some (xs ! i)"
proof (induction xs arbitrary: i)
  case Nil
  then show ?case by simp
next
  case (Cons x xs)
  show ?case
  proof (cases i)
    case 0
    then show ?thesis using Cons.prems by simp
  next
    case (Suc k)
    have "\<not> P x" using Cons.prems(3) Suc by auto
    moreover have "\<forall>j<k. \<not> P (xs ! j)"
      using Cons.prems(3) Suc by (metis Suc_less_eq nth_Cons_Suc)
    then have "find P xs = Some (xs ! k)"
      using Cons.IH [of k] Cons.prems(1,2) Suc by simp
    ultimately show ?thesis using Suc by simp
  qed
qed

lemma Add_inputs: "foldl Add a vs = a\<lparr>inputs := inputs a @ vs\<rparr>"
  by (induction vs arbitrary: a) (simp_all add: Add_def)

lemma seriesOfBucket_Nil [simp]: "seriesOfBucket [] b = []"
  by (simp add: seriesOfBucket_def)

lemma seriesOfBucket_Cons:
  "seriesOfBucket ((k, v) # rest) b =
     (if bucketOf k = b then v # seriesOfBucket rest b else seriesOfBucket rest b)"
  by (simp add: seriesOfBucket_def)

lemma connectionsLoop_map:
  "fst (connectionsLoop connections (m, tot)) b =
     (if seriesOfBucket connections b = [] then m b
      else Some (foldl Add (case m b of None \<Rightarrow> NewAggregate NanSum | Some a \<Rightarrow> a)
                   (seriesOfBucket connections b)))"
proof (induction connections arbitrary: m tot)
  case Nil
  show ?case by simp
next
  case (Cons kv rest)
  obtain k v where kv: "kv = (k, v)" by (cases kv)
  show ?case
    by (simp add: kv Let_def Cons.IH seriesOfBucket_Cons)
qed

lemma fadd_Val_last:
  "(if \<not> IsNaN (Last v) then fadd (Val x) (Last v) else Val x) = Val (x + lastOrZero v)"
  by (cases "Last v") (simp_all add: lastOrZero_def)

lemma connectionsLoop_total:
  "snd (connectionsLoop connections (m, Val x)) =
     Val (x + sum_list (map (\<lambda>(k, v). lastOrZero v) connections))"
proof (induction connections arbitrary: m x)
  case Nil
  show ?case by simp
next
  case (Cons kv rest)
  obtain k v where kv: "kv = (k, v)" by (cases kv)
  show ?case
    by (simp add: kv Let_def fadd_Val_last Cons.IH add.assoc)
qed

lemma reservedLoop_total:
  "snd (reservedLoop settings names (m, Val x)) =
     Val (x + sum_list (map (\<lambda>s. lastOrZero (Samples settings s)) names))"
proof (induction names arbitrary: m x)
  case Nil
  show ?case by simp
next
  case (Cons s rest)
  show ?case
    by (simp add: Let_def fadd_Val_last Cons.IH add.assoc)
qed

lemma reservedLoop_map:
  "m ''reserved'' = Some a \<Longrightarrow>
   fst (reservedLoop settings names (m, tot)) =
     m(''reserved'' \<mapsto> foldl Add a (map (Samples settings) names))"
proof (induction names arbitrary: m tot a)
  case Nil
  then show ?case by (simp add: fun_upd_idem)
next
  case (Cons s rest)
  define m' where "m' = m(''reserved'' \<mapsto> Add a (Samples settings s))"
  have m': "m' ''reserved'' = Some (Add a (Samples settings s))" by (simp add: m'_def)
  have "\<exists>tot'. reservedLoop settings (s # rest) (m, tot) = reservedLoop settings rest (m', tot')"
    using Cons.prems by (auto simp: Let_def m'_def)
  then obtain tot' where eq:
    "reservedLoop settings (s # rest) (m, tot) = reservedLoop settings rest (m', tot')" ..
  have ih: "fst (reservedLoop settings rest (m', tot')) =
      m'(''reserved'' \<mapsto> foldl Add (Add a (Samples settings s)) (map (Samples settings) rest))"
    by (rule Cons.IH) (rule m')
  have "fst (reservedLoop settings (s # rest) (m, tot)) =
      m'(''reserved'' \<mapsto> foldl Add (Add a (Samples settings s)) (map (Samples settings) rest))"
    by (simp only: eq ih)
  also have "\<dots> = m(''reserved'' \<mapsto> foldl Add a (map (Samples settings) (s # rest)))"
    by (simp only: m'_def fun_upd_upd list.map foldl_Cons)
  finally show ?case .
qed

lemma pgConnections_byState:
  "byState (pgConnections rnd instanceName connections settings check) =
     (fst (connectionsLoop connections (Map.empty, Val 0)))
       (''reserved'' \<mapsto> \<lparr>combinator = NanSum, inputs = map (Samples settings) reservedSettings\<rparr>)"
proof -
  obtain m1 tot1 where l1: "connectionsLoop connections (Map.empty, Val 0) = (m1, tot1)"
    by (cases "connectionsLoop connections (Map.empty, Val 0)")
  obtain m3 tot where l3: "reservedLoop settings reservedSettings
      (m1(''reserved'' \<mapsto> NewAggregate NanSum), tot1) = (m3, tot)"
    by (cases "reservedLoop settings reservedSettings (m1(''reserved'' \<mapsto> NewAggregate NanSum), tot1)")
  have "m3 = (m1(''reserved'' \<mapsto> NewAggregate NanSum))
      (''reserved'' \<mapsto> foldl Add (NewAggregate NanSum) (map (Samples settings) reservedSettings))"
    using reservedLoop_map [of "m1(''reserved'' \<mapsto> NewAggregate NanSum)" "NewAggregate NanSum"
        settings reservedSettings tot1] l3 by simp
  then have "m3 = m1(''reserved'' \<mapsto>
      \<lparr>combinator = NanSum, inputs = map (Samples settings) reservedSettings\<rparr>)"
    by (simp add: Add_inputs NewAggregate_def)
  then show ?thesis by (simp add: pgConnections_def l1 l3 Let_def)
qed

lemma pgConnections_total:
  "totalConnections (pgConnections rnd instanceName connections settings check) =
     Val (sum_list (map (\<lambda>(k, v). lastOrZero v) connections) +
          sum_list (map (\<lambda>s. lastOrZero (Samples settings s)) reservedSettings))"
proof -
  obtain m1 tot1 where l1: "connectionsLoop connections (Map.empty, Val 0) = (m1, tot1)"
    by (cases "connectionsLoop connections (Map.empty, Val 0)")
  have t1: "tot1 = Val (sum_list (map (\<lambda>(k, v). lastOrZero v) connections))"
    using connectionsLoop_total [of connections Map.empty 0] l1 by simp
  obtain m3 tot where l3: "reservedLoop settings reservedSettings
      (m1(''reserved'' \<mapsto> NewAggregate NanSum), tot1) = (m3, tot)"
    by (cases "reservedLoop settings reservedSettings (m1(''reserved'' \<mapsto> NewAggregate NanSum), tot1)")
  have "tot = Val (sum_list (map (\<lambda>(k, v). lastOrZero v) connections) +
          sum_list (map (\<lambda>s. lastOrZero (Samples settings s)) reservedSettings))"
    using reservedLoop_total [of settings reservedSettings "m1(''reserved'' \<mapsto> NewAggregate NanSum)"
        "sum_list (map (\<lambda>(k, v). lastOrZero v) connections)"] l3 t1 by simp
  then show ?thesis by (simp add: pgConnections_def l1 l3 Let_def)
qed

lemma pgConnections_check:
  "connectionsCheck (pgConnections rnd instanceName connections settings check) =
     (if fgt (Last (Samples settings ''max_connections'')) (Val 0) \<and>
         fgt (totalConnections (pgConnections rnd instanceName connections settings check)) (Val 0)
      then (if fgt (fmul rnd (fdiv rnd
                      (totalConnections (pgConnections rnd instanceName connections settings check))
                      (Last (Samples settings ''max_connections''))) (Val 100)) (Threshold check)
            then AddItem check instanceName else check)
      else check)"
  by (simp add: pgConnections_def Let_def split: prod.splits)

lemma pgConnections_chart:
  "chartSeries (pgConnections rnd instanceName connections settings check) b =
     map_option Get (byState (pgConnections rnd instanceName connections settings check) b)"
  by (simp add: pgConnections_def Let_def split: prod.splits)

lemma connections_byState_bucket:
  "b \<noteq> ''reserved'' \<Longrightarrow>
   byState (pgConnections rnd instanceName connections settings check) b =
     (if seriesOfBucket connections b = [] then None
      else Some \<lparr>combinator = NanSum, inputs = seriesOfBucket connections b\<rparr>)"
  by (simp add: pgConnections_byState connectionsLoop_map Add_inputs NewAggregate_def)

lemma bucket_count:
  "finite B \<Longrightarrow> (bucketOf \<circ> fst) ` set connections \<subseteq> B \<Longrightarrow>
   (\<Sum>b\<in>B. length (seriesOfBucket connections b)) = length connections"
proof (induction connections)
  case Nil
  then show ?case by simp
next
  case (Cons kv rest)
  obtain k v where kv: "kv = (k, v)" by (cases kv)
  have kB: "bucketOf k \<in> B" using Cons.prems(2) kv by simp
  have "(\<Sum>b\<in>B. length (seriesOfBucket (kv # rest) b)) =
      (\<Sum>b\<in>B. (if bucketOf k = b then 1 else 0) + length (seriesOfBucket rest b))"
    by (rule sum.cong) (simp_all add: kv seriesOfBucket_Cons)
  also have "\<dots> = (\<Sum>b\<in>B. if bucketOf k = b then 1 else 0) + (\<Sum>b\<in>B. length (seriesOfBucket rest b))"
    by (simp add: sum.distrib)
  also have "(\<Sum>b\<in>B. if bucketOf k = b then 1 else 0) = (1::nat)"
    using Cons.prems(1) kB by simp
  also have "(\<Sum>b\<in>B. length (seriesOfBucket rest b)) = length rest"
    using Cons.IH Cons.prems by simp
  finally show ?case by simp
qed

lemma valueAt_Get:
  assumes "filter (\<lambda>ts. \<not> IsEmpty ts) (inputs a) = x # xs" and "t \<in> fst ` set x"
  shows "valueAt (Get a) t = foldl (combinator a) NaN (map (\<lambda>ts. valueAt ts t) (inputs a))"
proof -
  obtain v where "map_of x t = Some v"
    using assms(2) by (metis domD dom_map_of_conv_image_fst)
  then show ?thesis
    using assms(1)
      map_of_map_key [of "\<lambda>t v. foldl (combinator a) NaN (map (\<lambda>ts. valueAt ts t) (inputs a))" x t]
    by (simp add: Get_def valueAt_def)
qed

lemma valueAt_Val_instant: "valueAt ts t = Val a \<Longrightarrow> t \<in> fst ` set ts \<and> \<not> IsEmpty ts"
  by (auto simp: valueAt_def IsEmpty_def split: option.splits dest!: map_of_SomeD intro: rev_image_eqI)

lemma sum_list_nonneg_conn:
  "\<forall>(k, v) \<in> set connections. 0 \<le> lastOrZero v \<Longrightarrow>
   0 \<le> sum_list (map (\<lambda>(k, v). lastOrZero v) connections)"
  by (induction connections) auto

lemma sum_list_nonneg_set:
  "\<forall>s \<in> set names. 0 \<le> lastOrZero (Samples settings s) \<Longrightarrow>
   0 \<le> sum_list (map (\<lambda>s. lastOrZero (Samples settings s)) names)"
  by (induction names) auto

lemma count_list_AddItem:
  "name \<notin> set (items c) \<Longrightarrow> count_list (items (AddItem c name)) name = 1"
  by (simp add: AddItem_def count_list_0_iff)

section \<open>Byte lag\<close>

text \<open>
  Claim C3. At every instant where the primary position and the replayed position are
  both numbers, the byte lag of \<open>pgReplicationLag\<close> is their difference when that is not
  negative and 0 when it is negative. The lag series has the instants of the primary
  series, and none of its values is negative.
\<close>

theorem byte_lag_floored_at_zero:
  "(valueAt primaryLsn t = Val p \<and> valueAt replayLsn t = Val r \<longrightarrow>
      valueAt (pgReplicationLag primaryLsn replayLsn) t = Val (if p - r < 0 then 0 else p - r)) \<and>
   map fst (pgReplicationLag primaryLsn replayLsn) = map fst primaryLsn \<and>
   (\<forall>(t, v) \<in> set (pgReplicationLag primaryLsn replayLsn). \<not> flt v (Val 0))"
proof (intro conjI impI)
  assume "valueAt primaryLsn t = Val p \<and> valueAt replayLsn t = Val r"
  then show "valueAt (pgReplicationLag primaryLsn replayLsn) t = Val (if p - r < 0 then 0 else p - r)"
    using valueAt_Aggregate2 [of primaryLsn t p replayLsn byteLag]
    by (simp add: pgReplicationLag_def byteLag_Val)
next
  show "map fst (pgReplicationLag primaryLsn replayLsn) = map fst primaryLsn"
    by (simp add: pgReplicationLag_def Aggregate2_def case_prod_unfold comp_def)
next
  show "\<forall>(t, v) \<in> set (pgReplicationLag primaryLsn replayLsn). \<not> flt v (Val 0)"
    by (auto simp: pgReplicationLag_def Aggregate2_def byteLag_not_negative)
qed

theorem byte_lag_floored_at_zero_witness:
  "valueAt [(60, Val 100), (120, Val 90)] 60 = Val 100 \<and>
   valueAt [(60, Val 70), (120, Val 95)] 60 = Val 70 \<and>
   valueAt (pgReplicationLag [(60, Val 100), (120, Val 90)] [(60, Val 70), (120, Val 95)]) 60 = Val 30 \<and>
   valueAt [(60, Val 100), (120, Val 90)] 120 = Val 90 \<and>
   valueAt [(60, Val 70), (120, Val 95)] 120 = Val 95 \<and>
   valueAt (pgReplicationLag [(60, Val 100), (120, Val 90)] [(60, Val 70), (120, Val 95)]) 120 = Val 0 \<and>
   pgReplicationLag [(60, Val 100), (120, Val 90)] [(60, Val 70), (120, Val 95)] =
     [(60, Val 30), (120, Val 0)]"
  using byte_lag_floored_at_zero [of "[(60, Val 100), (120, Val 90)]" 60 100
      "[(60, Val 70), (120, Val 95)]" 70]
    byte_lag_floored_at_zero [of "[(60, Val 100), (120, Val 90)]" 120 90
      "[(60, Val 70), (120, Val 95)]" 95]
  by (simp add: valueAt_def pgReplicationLag_def Aggregate2_def byteLag_def)

section \<open>Connection states\<close>

text \<open>
  Claim C6. \<open>pgConnections\<close> sends every key to one bucket: the key with state
  \<open>active\<close> and wait event type \<open>Lock\<close> to \<open>active (locked)\<close>, every other key to its
  raw state. For every bucket other than \<open>reserved\<close> (which the function overwrites
  afterwards; no connection state of Postgres has that name) the aggregate of the bucket
  is the NanSum aggregate whose inputs are exactly the series of the keys of that bucket,
  in the order of the loop, and the chart receives its output: at an instant of the
  bucket's series, the NanSum of their values there. Every series is an input of exactly
  one bucket: the numbers of inputs of the buckets add up to the number of
  series, and no key belongs to both \<open>active\<close> and \<open>active (locked)\<close>.
\<close>

theorem connections_bucketed_once:
  "(State k = ''active'' \<and> WaitEventType k = ''Lock'' \<longrightarrow> bucketOf k = ''active (locked)'') \<and>
   (\<not> (State k = ''active'' \<and> WaitEventType k = ''Lock'') \<longrightarrow> bucketOf k = State k) \<and>
   (b \<noteq> ''reserved'' \<longrightarrow>
      byState (pgConnections rnd instanceName connections settings check) b =
        (if seriesOfBucket connections b = [] then None
         else Some \<lparr>combinator = NanSum, inputs = seriesOfBucket connections b\<rparr>) \<and>
      chartSeries (pgConnections rnd instanceName connections settings check) b =
        (if seriesOfBucket connections b = [] then None
         else Some (Get \<lparr>combinator = NanSum, inputs = seriesOfBucket connections b\<rparr>))) \<and>
   (b \<noteq> ''reserved'' \<and>
    filter (\<lambda>ts. \<not> IsEmpty ts) (seriesOfBucket connections b) = x # xs \<and> t \<in> fst ` set x \<longrightarrow>
      valueAt (the (chartSeries (pgConnections rnd instanceName connections settings check) b)) t =
        foldl NanSum NaN (map (\<lambda>ts. valueAt ts t) (seriesOfBucket connections b))) \<and>
   (\<Sum>b \<in> (bucketOf \<circ> fst) ` set connections. length (seriesOfBucket connections b)) =
      length connections \<and>
   (\<forall>(k, v) \<in> set connections.
      \<not> (bucketOf k = ''active'' \<and> bucketOf k = ''active (locked)''))"
proof (intro conjI impI)
  show "(\<Sum>b \<in> (bucketOf \<circ> fst) ` set connections. length (seriesOfBucket connections b)) =
      length connections"
    by (rule bucket_count) simp_all
next
  assume a: "b \<noteq> ''reserved'' \<and>
    filter (\<lambda>ts. \<not> IsEmpty ts) (seriesOfBucket connections b) = x # xs \<and> t \<in> fst ` set x"
  then have ne: "seriesOfBucket connections b \<noteq> []" by auto
  have f: "filter (\<lambda>ts. \<not> IsEmpty ts)
      (inputs \<lparr>combinator = NanSum, inputs = seriesOfBucket connections b\<rparr>) = x # xs"
    using a by simp
  have i: "t \<in> fst ` set x" using a by simp
  show "valueAt (the (chartSeries (pgConnections rnd instanceName connections settings check) b)) t =
        foldl NanSum NaN (map (\<lambda>ts. valueAt ts t) (seriesOfBucket connections b))"
    using valueAt_Get [OF f i] a ne
    by (simp add: pgConnections_chart connections_byState_bucket)
qed (auto simp: bucketOf_def pgActiveLockedState_def connections_byState_bucket pgConnections_chart)

theorem connections_bucketed_once_witness:
  "bucketOf \<lparr>State = ''active'', WaitEventType = ''Lock''\<rparr> = ''active (locked)'' \<and>
   bucketOf \<lparr>State = ''active'', WaitEventType = ''Client''\<rparr> = ''active'' \<and>
   ''active (locked)'' \<noteq> ''reserved'' \<and> ''active'' \<noteq> ''reserved'' \<and>
   byState (pgConnections (\<lambda>x. x) ''pg-0''
      [(\<lparr>State = ''active'', WaitEventType = ''Lock''\<rparr>, [(60, Val 2)]),
       (\<lparr>State = ''active'', WaitEventType = ''Client''\<rparr>, [(60, Val 5)]),
       (\<lparr>State = ''active'', WaitEventType = []\<rparr>, [(60, Val 1)])]
      Map.empty \<lparr>Threshold = Val 90, items = [], counter = 0, lastValue = NaN\<rparr>) ''active (locked)'' =
     Some \<lparr>combinator = NanSum, inputs = [[(60, Val 2)]]\<rparr> \<and>
   byState (pgConnections (\<lambda>x. x) ''pg-0''
      [(\<lparr>State = ''active'', WaitEventType = ''Lock''\<rparr>, [(60, Val 2)]),
       (\<lparr>State = ''active'', WaitEventType = ''Client''\<rparr>, [(60, Val 5)]),
       (\<lparr>State = ''active'', WaitEventType = []\<rparr>, [(60, Val 1)])]
      Map.empty \<lparr>Threshold = Val 90, items = [], counter = 0, lastValue = NaN\<rparr>) ''active'' =
     Some \<lparr>combinator = NanSum, inputs = [[(60, Val 5)], [(60, Val 1)]]\<rparr> \<and>
   chartSeries (pgConnections (\<lambda>x. x) ''pg-0''
      [(\<lparr>State = ''active'', WaitEventType = ''Lock''\<rparr>, [(60, Val 2)]),
       (\<lparr>State = ''active'', WaitEventType = ''Client''\<rparr>, [(60, Val 5)]),
       (\<lparr>State = ''active'', WaitEventType = []\<rparr>, [(60, Val 1)])]
      Map.empty \<lparr>Threshold = Val 90, items = [], counter = 0, lastValue = NaN\<rparr>) ''active'' = Some [(60, Val 6)]"
  using connections_bucketed_once [of "\<lparr>State = ''active'', WaitEventType = ''Lock''\<rparr>"
      "''active (locked)''" "\<lambda>x. x" "''pg-0''"
      "[(\<lparr>State = ''active'', WaitEventType = ''Lock''\<rparr>, [(60, Val 2)]),
        (\<lparr>State = ''active'', WaitEventType = ''Client''\<rparr>, [(60, Val 5)]),
        (\<lparr>State = ''active'', WaitEventType = []\<rparr>, [(60, Val 1)])]"
      Map.empty "\<lparr>Threshold = Val 90, items = [], counter = 0, lastValue = NaN\<rparr>"
      "[(60, Val 2)]" "[]" 60]
    connections_bucketed_once [of "\<lparr>State = ''active'', WaitEventType = ''Client''\<rparr>"
      "''active''" "\<lambda>x. x" "''pg-0''"
      "[(\<lparr>State = ''active'', WaitEventType = ''Lock''\<rparr>, [(60, Val 2)]),
        (\<lparr>State = ''active'', WaitEventType = ''Client''\<rparr>, [(60, Val 5)]),
        (\<lparr>State = ''active'', WaitEventType = []\<rparr>, [(60, Val 1)])]"
      Map.empty "\<lparr>Threshold = Val 90, items = [], counter = 0, lastValue = NaN\<rparr>"
      "[(60, Val 5)]" "[[(60, Val 1)]]" 60]
  by (simp add: seriesOfBucket_def bucketOf_def pgActiveLockedState_def Get_def IsEmpty_def
      valueAt_def)

text \<open>
  Claim C7. The latest values of the connection series, of the reserved settings and
  of \<open>max_connections\<close> are counts: not negative where they are numbers. If
  \<open>max_connections\<close> is absent, has no latest value or is zero, or the total is zero
  (it is never NaN), the check is left as it was. Otherwise the total and the maximum are
  positive numbers, the total being the sum of the latest values of the connection series
  and of the reserved settings, and the check after the call is the check with the
  instance added if the threshold is less than \<open>total / max * 100\<close> (the quotient and
  the product each rounded by \<open>rnd\<close>), and the unchanged check if not; an instance that
  was not among the items is then among them exactly once in the first case and not at
  all in the second.
\<close>

theorem saturation_check_guarded:
  assumes "\<forall>(k, v) \<in> set connections. 0 \<le> lastOrZero v"
    and "\<forall>s \<in> set reservedSettings. 0 \<le> lastOrZero (Samples settings s)"
    and "0 \<le> lastOrZero (Samples settings ''max_connections'')"
  shows
  "(settings ''max_connections'' = None \<or>
    IsNaN (Last (Samples settings ''max_connections'')) \<or>
    Last (Samples settings ''max_connections'') = Val 0 \<or>
    totalConnections (pgConnections rnd instanceName connections settings check) = Val 0 \<or>
    IsNaN (totalConnections (pgConnections rnd instanceName connections settings check)) \<longrightarrow>
      connectionsCheck (pgConnections rnd instanceName connections settings check) = check) \<and>
   (\<not> (settings ''max_connections'' = None \<or>
    IsNaN (Last (Samples settings ''max_connections'')) \<or>
    Last (Samples settings ''max_connections'') = Val 0 \<or>
    totalConnections (pgConnections rnd instanceName connections settings check) = Val 0 \<or>
    IsNaN (totalConnections (pgConnections rnd instanceName connections settings check))) \<longrightarrow>
      totalConnections (pgConnections rnd instanceName connections settings check) =
        Val (sum_list (map (\<lambda>(k, v). lastOrZero v) connections) +
             sum_list (map (\<lambda>s. lastOrZero (Samples settings s)) reservedSettings)) \<and>
      0 < sum_list (map (\<lambda>(k, v). lastOrZero v) connections) +
          sum_list (map (\<lambda>s. lastOrZero (Samples settings s)) reservedSettings) \<and>
      Last (Samples settings ''max_connections'') = Val (lastOrZero (Samples settings ''max_connections'')) \<and>
      0 < lastOrZero (Samples settings ''max_connections'') \<and>
      connectionsCheck (pgConnections rnd instanceName connections settings check) =
        (if (case Threshold check of
            NaN \<Rightarrow> False
          | Val r \<Rightarrow>
              r < rnd (rnd ((sum_list (map (\<lambda>(k, v). lastOrZero v) connections) +
                             sum_list (map (\<lambda>s. lastOrZero (Samples settings s)) reservedSettings)) /
                            lastOrZero (Samples settings ''max_connections'')) * 100))
         then AddItem check instanceName else check) \<and>
      (instanceName \<notin> set (items check) \<longrightarrow>
         count_list (items (connectionsCheck (pgConnections rnd instanceName connections settings check))) instanceName =
         (if (case Threshold check of
            NaN \<Rightarrow> False
          | Val r \<Rightarrow>
              r < rnd (rnd ((sum_list (map (\<lambda>(k, v). lastOrZero v) connections) +
                             sum_list (map (\<lambda>s. lastOrZero (Samples settings s)) reservedSettings)) /
                            lastOrZero (Samples settings ''max_connections'')) * 100))
          then 1 else 0)))"
proof -
  define x where "x = sum_list (map (\<lambda>(k, v). lastOrZero v) connections) +
      sum_list (map (\<lambda>s. lastOrZero (Samples settings s)) reservedSettings)"
  define y where "y = lastOrZero (Samples settings ''max_connections'')"
  define tot where "tot = totalConnections (pgConnections rnd instanceName connections settings check)"
  define mx where "mx = Last (Samples settings ''max_connections'')"
  have tot: "tot = Val x"
    by (simp add: tot_def x_def pgConnections_total)
  have x0: "0 \<le> x"
    using sum_list_nonneg_conn [OF assms(1)] sum_list_nonneg_set [OF assms(2)]
    by (simp add: x_def)
  have y0: "0 \<le> y" using assms(3) by (simp add: y_def)
  have mx: "mx = NaN \<or> mx = Val y"
    by (cases mx) (auto simp: mx_def y_def lastOrZero_def)
  have absent: "settings ''max_connections'' = None \<Longrightarrow> IsNaN mx"
    by (simp add: mx_def Samples_def Last_def)
  have chk: "connectionsCheck (pgConnections rnd instanceName connections settings check) =
     (if fgt mx (Val 0) \<and> fgt tot (Val 0)
      then (if fgt (fmul rnd (fdiv rnd tot mx) (Val 100)) (Threshold check)
            then AddItem check instanceName else check)
      else check)"
    unfolding tot_def mx_def by (rule pgConnections_check)
  have skip: "connectionsCheck (pgConnections rnd instanceName connections settings check) = check"
    if "settings ''max_connections'' = None \<or> IsNaN mx \<or> mx = Val 0 \<or> tot = Val 0 \<or> IsNaN tot"
    using that absent chk tot by (cases mx) auto
  have run: "tot = Val x \<and> 0 < x \<and> mx = Val y \<and> 0 < y \<and>
      connectionsCheck (pgConnections rnd instanceName connections settings check) =
        (if (case Threshold check of NaN \<Rightarrow> False | Val r \<Rightarrow> r < rnd (rnd (x / y) * 100))
         then AddItem check instanceName else check)"
    if n: "\<not> (settings ''max_connections'' = None \<or> IsNaN mx \<or> mx = Val 0 \<or> tot = Val 0 \<or> IsNaN tot)"
  proof -
    have my: "mx = Val y" using n mx by auto
    have xp: "0 < x" using n tot x0 by auto
    have yp: "0 < y" using n my y0 by auto
    show ?thesis
      using my xp yp tot chk by (cases "Threshold check") simp_all
  qed
  have cnt: "count_list (items (if c then AddItem check instanceName else check)) instanceName =
      (if c then 1 else 0)" if "instanceName \<notin> set (items check)" for c
    using that by (simp add: count_list_AddItem count_list_0_iff)
  show ?thesis
    unfolding tot_def [symmetric] mx_def [symmetric] x_def [symmetric] y_def [symmetric]
    using skip run cnt by auto
qed

text \<open>
  A total of 95 connections (80 active, 12 idle, 3 reserved), 100 allowed: with a
  threshold of 90 the instance is recorded once, with a threshold of 95 it is not
  (95 does not exceed 95). With \<open>max_connections\<close> absent nothing is recorded.
\<close>

theorem saturation_check_guarded_witness:
  "totalConnections (pgConnections (\<lambda>x. x) ''pg-0''
      [(\<lparr>State = ''active'', WaitEventType = []\<rparr>, [(60, Val 80)]),
       (\<lparr>State = ''idle'', WaitEventType = []\<rparr>, [(60, Val 12)])]
      [''superuser_reserved_connections'' \<mapsto> [(60, Val 3)], ''max_connections'' \<mapsto> [(60, Val 100)]]
      \<lparr>Threshold = Val 90, items = [], counter = 0, lastValue = NaN\<rparr>) = Val 95 \<and>
   connectionsCheck (pgConnections (\<lambda>x. x) ''pg-0''
      [(\<lparr>State = ''active'', WaitEventType = []\<rparr>, [(60, Val 80)]),
       (\<lparr>State = ''idle'', WaitEventType = []\<rparr>, [(60, Val 12)])]
      [''superuser_reserved_connections'' \<mapsto> [(60, Val 3)], ''max_connections'' \<mapsto> [(60, Val 100)]]
      \<lparr>Threshold = Val 90, items = [], counter = 0, lastValue = NaN\<rparr>) =
     \<lparr>Threshold = Val 90, items = [''pg-0''], counter = 0, lastValue = NaN\<rparr> \<and>
   count_list (items (connectionsCheck (pgConnections (\<lambda>x. x) ''pg-0''
      [(\<lparr>State = ''active'', WaitEventType = []\<rparr>, [(60, Val 80)]),
       (\<lparr>State = ''idle'', WaitEventType = []\<rparr>, [(60, Val 12)])]
      [''superuser_reserved_connections'' \<mapsto> [(60, Val 3)], ''max_connections'' \<mapsto> [(60, Val 100)]]
      \<lparr>Threshold = Val 90, items = [], counter = 0, lastValue = NaN\<rparr>))) ''pg-0'' = 1 \<and>
   connectionsCheck (pgConnections (\<lambda>x. x) ''pg-0''
      [(\<lparr>State = ''active'', WaitEventType = []\<rparr>, [(60, Val 80)]),
       (\<lparr>State = ''idle'', WaitEventType = []\<rparr>, [(60, Val 12)])]
      [''superuser_reserved_connections'' \<mapsto> [(60, Val 3)], ''max_connections'' \<mapsto> [(60, Val 100)]]
      \<lparr>Threshold = Val 95, items = [], counter = 0, lastValue = NaN\<rparr>) =
     \<lparr>Threshold = Val 95, items = [], counter = 0, lastValue = NaN\<rparr> \<and>
   connectionsCheck (pgConnections (\<lambda>x. x) ''pg-0''
      [(\<lparr>State = ''active'', WaitEventType = []\<rparr>, [(60, Val 80)]),
       (\<lparr>State = ''idle'', WaitEventType = []\<rparr>, [(60, Val 12)])]
      [''superuser_reserved_connections'' \<mapsto> [(60, Val 3)]]
      \<lparr>Threshold = Val 90, items = [], counter = 0, lastValue = NaN\<rparr>) = \<lparr>Threshold = Val 90, items = [], counter = 0, lastValue = NaN\<rparr>"
proof -
  have a1: "\<forall>(k, v) \<in> set [(\<lparr>State = ''active'', WaitEventType = []\<rparr>, [(60, Val 80)]),
       (\<lparr>State = ''idle'', WaitEventType = []\<rparr>, [(60, Val 12)])]. 0 \<le> lastOrZero v"
    by (simp add: lastOrZero_def Last_def)
  have a2: "\<forall>s \<in> set reservedSettings. 0 \<le> lastOrZero (Samples
      [''superuser_reserved_connections'' \<mapsto> [(60, Val 3)], ''max_connections'' \<mapsto> [(60, Val 100)]] s)"
    by (simp add: reservedSettings_def lastOrZero_def Last_def Samples_def)
  have a3: "0 \<le> lastOrZero (Samples
      [''superuser_reserved_connections'' \<mapsto> [(60, Val 3)], ''max_connections'' \<mapsto> [(60, Val 100)]]
      ''max_connections'')"
    by (simp add: lastOrZero_def Last_def Samples_def)
  have b2: "\<forall>s \<in> set reservedSettings. 0 \<le> lastOrZero (Samples
      [''superuser_reserved_connections'' \<mapsto> [(60, Val 3)]] s)"
    by (simp add: reservedSettings_def lastOrZero_def Last_def Samples_def)
  have b3: "0 \<le> lastOrZero (Samples [''superuser_reserved_connections'' \<mapsto> [(60, Val 3)]]
      ''max_connections'')"
    by (simp add: lastOrZero_def Last_def Samples_def)
  have t: "totalConnections (pgConnections (\<lambda>x. x) ''pg-0''
      [(\<lparr>State = ''active'', WaitEventType = []\<rparr>, [(60, Val 80)]),
       (\<lparr>State = ''idle'', WaitEventType = []\<rparr>, [(60, Val 12)])]
      [''superuser_reserved_connections'' \<mapsto> [(60, Val 3)], ''max_connections'' \<mapsto> [(60, Val 100)]]
      \<lparr>Threshold = Val 90, items = [], counter = 0, lastValue = NaN\<rparr>) = Val 95"
    by (simp add: pgConnections_total reservedSettings_def lastOrZero_def Last_def Samples_def)
  have t95: "totalConnections (pgConnections (\<lambda>x. x) ''pg-0''
      [(\<lparr>State = ''active'', WaitEventType = []\<rparr>, [(60, Val 80)]),
       (\<lparr>State = ''idle'', WaitEventType = []\<rparr>, [(60, Val 12)])]
      [''superuser_reserved_connections'' \<mapsto> [(60, Val 3)], ''max_connections'' \<mapsto> [(60, Val 100)]]
      \<lparr>Threshold = Val 95, items = [], counter = 0, lastValue = NaN\<rparr>) = Val 95"
    by (simp add: pgConnections_total reservedSettings_def lastOrZero_def Last_def Samples_def)
  note A = saturation_check_guarded [OF a1 a2 a3, of "\<lambda>x. x" "''pg-0''" "\<lparr>Threshold = Val 90, items = [], counter = 0, lastValue = NaN\<rparr>"]
  note B = saturation_check_guarded [OF a1 a2 a3, of "\<lambda>x. x" "''pg-0''" "\<lparr>Threshold = Val 95, items = [], counter = 0, lastValue = NaN\<rparr>"]
  note C = saturation_check_guarded [OF a1 b2 b3, of "\<lambda>x. x" "''pg-0''" "\<lparr>Threshold = Val 90, items = [], counter = 0, lastValue = NaN\<rparr>"]
  have r1: "connectionsCheck (pgConnections (\<lambda>x. x) ''pg-0''
      [(\<lparr>State = ''active'', WaitEventType = []\<rparr>, [(60, Val 80)]),
       (\<lparr>State = ''idle'', WaitEventType = []\<rparr>, [(60, Val 12)])]
      [''superuser_reserved_connections'' \<mapsto> [(60, Val 3)], ''max_connections'' \<mapsto> [(60, Val 100)]]
      \<lparr>Threshold = Val 90, items = [], counter = 0, lastValue = NaN\<rparr>) =
     \<lparr>Threshold = Val 90, items = [''pg-0''], counter = 0, lastValue = NaN\<rparr>"
    using A [THEN conjunct2] t by (simp add: reservedSettings_def lastOrZero_def Last_def Samples_def AddItem_def)
  have r2: "count_list (items (connectionsCheck (pgConnections (\<lambda>x. x) ''pg-0''
      [(\<lparr>State = ''active'', WaitEventType = []\<rparr>, [(60, Val 80)]),
       (\<lparr>State = ''idle'', WaitEventType = []\<rparr>, [(60, Val 12)])]
      [''superuser_reserved_connections'' \<mapsto> [(60, Val 3)], ''max_connections'' \<mapsto> [(60, Val 100)]]
      \<lparr>Threshold = Val 90, items = [], counter = 0, lastValue = NaN\<rparr>))) ''pg-0'' = 1"
    using A [THEN conjunct2] t by (simp add: reservedSettings_def lastOrZero_def Last_def Samples_def AddItem_def)
  have r3: "connectionsCheck (pgConnections (\<lambda>x. x) ''pg-0''
      [(\<lparr>State = ''active'', WaitEventType = []\<rparr>, [(60, Val 80)]),
       (\<lparr>State = ''idle'', WaitEventType = []\<rparr>, [(60, Val 12)])]
      [''superuser_reserved_connections'' \<mapsto> [(60, Val 3)], ''max_connections'' \<mapsto> [(60, Val 100)]]
      \<lparr>Threshold = Val 95, items = [], counter = 0, lastValue = NaN\<rparr>) = \<lparr>Threshold = Val 95, items = [], counter = 0, lastValue = NaN\<rparr>"
    using B [THEN conjunct2] t95 by (simp add: reservedSettings_def lastOrZero_def Last_def Samples_def)
  have r4: "connectionsCheck (pgConnections (\<lambda>x. x) ''pg-0''
      [(\<lparr>State = ''active'', WaitEventType = []\<rparr>, [(60, Val 80)]),
       (\<lparr>State = ''idle'', WaitEventType = []\<rparr>, [(60, Val 12)])]
      [''superuser_reserved_connections'' \<mapsto> [(60, Val 3)]]
      \<lparr>Threshold = Val 90, items = [], counter = 0, lastValue = NaN\<rparr>) = \<lparr>Threshold = Val 90, items = [], counter = 0, lastValue = NaN\<rparr>"
    using C [THEN conjunct1] by simp
  show ?thesis using t r1 r2 r3 r4 by blast
qed

text \<open>
  The rounding matters at equality. 55 connections of 100 allowed, threshold 55: with a
  rounding that sends \<open>55 / 100\<close> to the \<open>float64\<close> next to it and the product to
  \<open>55 + 1 / 2 ^ 47\<close>, as Go computes \<open>55.0 / 100.0 * 100.0\<close>, the instance is recorded;
  with exact arithmetic it is not.
\<close>

theorem saturation_rounded_at_equality:
  "connectionsCheck (pgConnections
      (\<lambda>x. if x = 11 / 20 then 2476979795053773 / 2 ^ 52
            else if x = 2476979795053773 / 2 ^ 52 * 100 then 55 + 1 / 2 ^ 47 else x)
      ''pg-0''
      [(\<lparr>State = ''active'', WaitEventType = []\<rparr>, [(60, Val 55)])]
      [''max_connections'' \<mapsto> [(60, Val 100)]]
      \<lparr>Threshold = Val 55, items = [], counter = 0, lastValue = NaN\<rparr>) =
     \<lparr>Threshold = Val 55, items = [''pg-0''], counter = 0, lastValue = NaN\<rparr> \<and>
   connectionsCheck (pgConnections (\<lambda>x. x) ''pg-0''
      [(\<lparr>State = ''active'', WaitEventType = []\<rparr>, [(60, Val 55)])]
      [''max_connections'' \<mapsto> [(60, Val 100)]]
      \<lparr>Threshold = Val 55, items = [], counter = 0, lastValue = NaN\<rparr>) =
     \<lparr>Threshold = Val 55, items = [], counter = 0, lastValue = NaN\<rparr>"
  by (simp add: pgConnections_def NewAggregate_def Add_def reservedSettings_def Samples_def
      bucketOf_def Last_def Let_def AddItem_def)

text \<open>
  Claim C8, as the model has it. \<open>pgConnections\<close> always sets the bucket \<open>reserved\<close> to
  a NanSum aggregate whose inputs are the series of the two reserved settings, and the
  chart receives its output. At an instant where both settings are numbers the value of
  the bucket is their sum. The total is the sum of the latest values of the connection
  series and of the two settings, a missing latest value counting as zero. When neither
  setting is present the output of the bucket has no sample, and the bucket adds zero to
  the total.
\<close>

theorem reserved_bucket_sum:
  "byState (pgConnections rnd instanceName connections settings check) ''reserved'' =
     Some \<lparr>combinator = NanSum, inputs = [Samples settings ''superuser_reserved_connections'', Samples settings ''rds.rds_superuser_reserved_connections'']\<rparr> \<and>
   chartSeries (pgConnections rnd instanceName connections settings check) ''reserved'' =
     Some (Get \<lparr>combinator = NanSum, inputs = [Samples settings ''superuser_reserved_connections'', Samples settings ''rds.rds_superuser_reserved_connections'']\<rparr>) \<and>
   (valueAt (Samples settings ''superuser_reserved_connections'') t = Val a \<and> valueAt (Samples settings ''rds.rds_superuser_reserved_connections'') t = Val b \<longrightarrow>
      valueAt (the (chartSeries (pgConnections rnd instanceName connections settings check) ''reserved'')) t = Val (a + b)) \<and>
   totalConnections (pgConnections rnd instanceName connections settings check) =
     Val (sum_list (map (\<lambda>(k, v). lastOrZero v) connections) +
          (lastOrZero (Samples settings ''superuser_reserved_connections'') + lastOrZero (Samples settings ''rds.rds_superuser_reserved_connections''))) \<and>
   (settings ''superuser_reserved_connections'' = None \<and>
    settings ''rds.rds_superuser_reserved_connections'' = None \<longrightarrow>
      the (chartSeries (pgConnections rnd instanceName connections settings check) ''reserved'') = [] \<and>
      totalConnections (pgConnections rnd instanceName connections settings check) = Val (sum_list (map (\<lambda>(k, v). lastOrZero v) connections)))"
proof -
  have b: "byState (pgConnections rnd instanceName connections settings check) ''reserved'' =
     Some \<lparr>combinator = NanSum, inputs = [Samples settings ''superuser_reserved_connections'', Samples settings ''rds.rds_superuser_reserved_connections'']\<rparr>"
    by (simp add: pgConnections_byState reservedSettings_def)
  have c: "chartSeries (pgConnections rnd instanceName connections settings check) ''reserved'' =
     Some (Get \<lparr>combinator = NanSum, inputs = [Samples settings ''superuser_reserved_connections'', Samples settings ''rds.rds_superuser_reserved_connections'']\<rparr>)"
    by (simp add: pgConnections_chart b)
  have v: "valueAt (the (chartSeries (pgConnections rnd instanceName connections settings check) ''reserved'')) t = Val (a + b)"
    if h: "valueAt (Samples settings ''superuser_reserved_connections'') t = Val a \<and> valueAt (Samples settings ''rds.rds_superuser_reserved_connections'') t = Val b"
  proof -
    have i1: "t \<in> fst ` set (Samples settings ''superuser_reserved_connections'')" and n1: "\<not> IsEmpty (Samples settings ''superuser_reserved_connections'')"
      using valueAt_Val_instant h by blast+
    have "\<exists>xs. filter (\<lambda>ts. \<not> IsEmpty ts)
        (inputs \<lparr>combinator = NanSum, inputs = [Samples settings ''superuser_reserved_connections'', Samples settings ''rds.rds_superuser_reserved_connections'']\<rparr>) = (Samples settings ''superuser_reserved_connections'') # xs"
      using n1 by simp
    then obtain xs where f: "filter (\<lambda>ts. \<not> IsEmpty ts)
        (inputs \<lparr>combinator = NanSum, inputs = [Samples settings ''superuser_reserved_connections'', Samples settings ''rds.rds_superuser_reserved_connections'']\<rparr>) = (Samples settings ''superuser_reserved_connections'') # xs" ..
    show ?thesis
      using valueAt_Get [OF f i1] h by (simp add: c)
  qed
  have t: "totalConnections (pgConnections rnd instanceName connections settings check) =
     Val (sum_list (map (\<lambda>(k, v). lastOrZero v) connections) +
          (lastOrZero (Samples settings ''superuser_reserved_connections'') + lastOrZero (Samples settings ''rds.rds_superuser_reserved_connections'')))"
    by (simp add: pgConnections_total reservedSettings_def)
  have n: "the (chartSeries (pgConnections rnd instanceName connections settings check) ''reserved'') = [] \<and>
      totalConnections (pgConnections rnd instanceName connections settings check) = Val (sum_list (map (\<lambda>(k, v). lastOrZero v) connections))"
    if "settings ''superuser_reserved_connections'' = None \<and>
        settings ''rds.rds_superuser_reserved_connections'' = None"
    using that by (simp add: c t Samples_def Get_def IsEmpty_def lastOrZero_def Last_def)
  show ?thesis using b c v t n by blast
qed

theorem reserved_bucket_sum_witness:
  "valueAt (Samples [''superuser_reserved_connections'' \<mapsto> [(60, Val 3)],
       ''rds.rds_superuser_reserved_connections'' \<mapsto> [(60, Val 2)]]
       ''superuser_reserved_connections'') 60 = Val 3 \<and>
   valueAt (Samples [''superuser_reserved_connections'' \<mapsto> [(60, Val 3)],
       ''rds.rds_superuser_reserved_connections'' \<mapsto> [(60, Val 2)]]
       ''rds.rds_superuser_reserved_connections'') 60 = Val 2 \<and>
   valueAt (the (chartSeries (pgConnections (\<lambda>x. x) ''pg-0''
       [(\<lparr>State = ''active'', WaitEventType = []\<rparr>, [(60, Val 5)])]
       [''superuser_reserved_connections'' \<mapsto> [(60, Val 3)],
        ''rds.rds_superuser_reserved_connections'' \<mapsto> [(60, Val 2)]]
       \<lparr>Threshold = Val 90, items = [], counter = 0, lastValue = NaN\<rparr>) ''reserved'')) 60 = Val 5 \<and>
   totalConnections (pgConnections (\<lambda>x. x) ''pg-0''
       [(\<lparr>State = ''active'', WaitEventType = []\<rparr>, [(60, Val 5)])]
       [''superuser_reserved_connections'' \<mapsto> [(60, Val 3)],
        ''rds.rds_superuser_reserved_connections'' \<mapsto> [(60, Val 2)]]
       \<lparr>Threshold = Val 90, items = [], counter = 0, lastValue = NaN\<rparr>) = Val 10 \<and>
   the (chartSeries (pgConnections (\<lambda>x. x) ''pg-0''
       [(\<lparr>State = ''active'', WaitEventType = []\<rparr>, [(60, Val 5)])] Map.empty
       \<lparr>Threshold = Val 90, items = [], counter = 0, lastValue = NaN\<rparr>) ''reserved'') = [] \<and>
   totalConnections (pgConnections (\<lambda>x. x) ''pg-0''
       [(\<lparr>State = ''active'', WaitEventType = []\<rparr>, [(60, Val 5)])] Map.empty
       \<lparr>Threshold = Val 90, items = [], counter = 0, lastValue = NaN\<rparr>) = Val 5"
proof -
  have h1: "valueAt (Samples [''superuser_reserved_connections'' \<mapsto> [(60, Val 3)],
       ''rds.rds_superuser_reserved_connections'' \<mapsto> [(60, Val 2)]]
       ''superuser_reserved_connections'') 60 = Val 3"
    by (simp add: Samples_def valueAt_def)
  have h2: "valueAt (Samples [''superuser_reserved_connections'' \<mapsto> [(60, Val 3)],
       ''rds.rds_superuser_reserved_connections'' \<mapsto> [(60, Val 2)]]
       ''rds.rds_superuser_reserved_connections'') 60 = Val 2"
    by (simp add: Samples_def valueAt_def)
  have l: "lastOrZero [(60, Val 5)] = 5" "lastOrZero [(60, Val 3)] = 3" "lastOrZero [(60, Val 2)] = 2"
    by (simp_all add: lastOrZero_def Last_def)
  note A = reserved_bucket_sum [of "\<lambda>x. x" "''pg-0''"
        "[(\<lparr>State = ''active'', WaitEventType = []\<rparr>, [(60, Val 5)])]"
        "[''superuser_reserved_connections'' \<mapsto> [(60, Val 3)],
          ''rds.rds_superuser_reserved_connections'' \<mapsto> [(60, Val 2)]]"
        "\<lparr>Threshold = Val 90, items = [], counter = 0, lastValue = NaN\<rparr>" 60 3 2]
  note B = reserved_bucket_sum [of "\<lambda>x. x" "''pg-0''"
        "[(\<lparr>State = ''active'', WaitEventType = []\<rparr>, [(60, Val 5)])]"
        Map.empty "\<lparr>Threshold = Val 90, items = [], counter = 0, lastValue = NaN\<rparr>" 60 0 0]
  have v: "valueAt (the (chartSeries (pgConnections (\<lambda>x. x) ''pg-0''
       [(\<lparr>State = ''active'', WaitEventType = []\<rparr>, [(60, Val 5)])]
       [''superuser_reserved_connections'' \<mapsto> [(60, Val 3)],
        ''rds.rds_superuser_reserved_connections'' \<mapsto> [(60, Val 2)]]
       \<lparr>Threshold = Val 90, items = [], counter = 0, lastValue = NaN\<rparr>) ''reserved'')) 60 = Val 5"
    using A [THEN conjunct2, THEN conjunct2, THEN conjunct1] h1 h2 by simp
  have t: "totalConnections (pgConnections (\<lambda>x. x) ''pg-0''
       [(\<lparr>State = ''active'', WaitEventType = []\<rparr>, [(60, Val 5)])]
       [''superuser_reserved_connections'' \<mapsto> [(60, Val 3)],
        ''rds.rds_superuser_reserved_connections'' \<mapsto> [(60, Val 2)]]
       \<lparr>Threshold = Val 90, items = [], counter = 0, lastValue = NaN\<rparr>) = Val 10"
    using A [THEN conjunct2, THEN conjunct2, THEN conjunct2, THEN conjunct1]
    by (simp add: l Samples_def)
  have e: "the (chartSeries (pgConnections (\<lambda>x. x) ''pg-0''
       [(\<lparr>State = ''active'', WaitEventType = []\<rparr>, [(60, Val 5)])] Map.empty
       \<lparr>Threshold = Val 90, items = [], counter = 0, lastValue = NaN\<rparr>) ''reserved'') = [] \<and>
      totalConnections (pgConnections (\<lambda>x. x) ''pg-0''
       [(\<lparr>State = ''active'', WaitEventType = []\<rparr>, [(60, Val 5)])] Map.empty
       \<lparr>Threshold = Val 90, items = [], counter = 0, lastValue = NaN\<rparr>) = Val 5"
    using B [THEN conjunct2, THEN conjunct2, THEN conjunct2, THEN conjunct2]
    by (simp add: l)
  show ?thesis using h1 h2 v t e by blast
qed

text \<open>
  With no reserved setting present, the bucket \<open>reserved\<close> has no sample: at the instant
  where the bucket \<open>active\<close> has the value 5, its value is not zero but missing.
\<close>

theorem reserved_bucket_empty_when_absent:
  "the (chartSeries (pgConnections (\<lambda>x. x) ''pg-0''
       [(\<lparr>State = ''active'', WaitEventType = []\<rparr>, [(60, Val 5)])] Map.empty
       \<lparr>Threshold = Val 90, items = [], counter = 0, lastValue = NaN\<rparr>) ''reserved'') = [] \<and>
   valueAt (the (chartSeries (pgConnections (\<lambda>x. x) ''pg-0''
       [(\<lparr>State = ''active'', WaitEventType = []\<rparr>, [(60, Val 5)])] Map.empty
       \<lparr>Threshold = Val 90, items = [], counter = 0, lastValue = NaN\<rparr>) ''reserved'')) 60 \<noteq> Val 0 \<and>
   valueAt (the (chartSeries (pgConnections (\<lambda>x. x) ''pg-0''
       [(\<lparr>State = ''active'', WaitEventType = []\<rparr>, [(60, Val 5)])] Map.empty
       \<lparr>Threshold = Val 90, items = [], counter = 0, lastValue = NaN\<rparr>) ''active'')) 60 = Val 5"
  by (simp add: pgConnections_def NewAggregate_def Add_def reservedSettings_def Samples_def Get_def
      IsEmpty_def valueAt_def bucketOf_def Last_def Let_def)

section \<open>Deployments\<close>

text \<open>
  Claim C9. In the pass over the deployment statuses, a status whose state is Stuck
  sets the value of the check to \<open>now - StartedAt\<close> (converted by \<open>float32\<close>); a later
  \<open>SetValue\<close> replaces an earlier one. The statuses are visited from the highest index
  down to index 0, so after the pass the check holds the value of the Stuck status of
  the lowest index, the one visited last, and the check is unchanged when no status is
  Stuck.
\<close>

theorem stuck_deployment_last_write:
  "(DeploymentState ds = ApplicationDeploymentStateStuck \<longrightarrow>
      deploymentStep float32 now ds c = SetValue c (float32 (now - StartedAt ds))) \<and>
   SetValue (SetValue c a) b = SetValue c b \<and>
   deployments float32 now numDeployments statuses c =
     (if numDeployments = 0 then None
      else Some (case find (\<lambda>ds. DeploymentState ds = ApplicationDeploymentStateStuck) statuses of
                   None \<Rightarrow> c
                 | Some ds \<Rightarrow> SetValue c (float32 (now - StartedAt ds)))) \<and>
   (i < length statuses \<and> DeploymentState (statuses ! i) = ApplicationDeploymentStateStuck \<and>
    (\<forall>j<i. DeploymentState (statuses ! j) \<noteq> ApplicationDeploymentStateStuck) \<longrightarrow>
      lastValue (deploymentsLoop float32 now statuses (length statuses) c) =
        float32 (now - StartedAt (statuses ! i)))"
proof (intro conjI impI)
  assume "DeploymentState ds = ApplicationDeploymentStateStuck"
  then show "deploymentStep float32 now ds c = SetValue c (float32 (now - StartedAt ds))"
    by (simp add: deploymentStep_cases)
next
  show "SetValue (SetValue c a) b = SetValue c b" by (rule SetValue_SetValue)
next
  show "deployments float32 now numDeployments statuses c =
     (if numDeployments = 0 then None
      else Some (case find (\<lambda>ds. DeploymentState ds = ApplicationDeploymentStateStuck) statuses of
                   None \<Rightarrow> c
                 | Some ds \<Rightarrow> SetValue c (float32 (now - StartedAt ds))))"
    using deploymentsLoop_find [of "length statuses" statuses float32 now c]
    by (simp add: deployments_def)
next
  assume a: "i < length statuses \<and> DeploymentState (statuses ! i) = ApplicationDeploymentStateStuck \<and>
    (\<forall>j<i. DeploymentState (statuses ! j) \<noteq> ApplicationDeploymentStateStuck)"
  then have "find (\<lambda>ds. DeploymentState ds = ApplicationDeploymentStateStuck) statuses
      = Some (statuses ! i)"
    using find_least [of i statuses "\<lambda>ds. DeploymentState ds = ApplicationDeploymentStateStuck"]
    by simp
  then show "lastValue (deploymentsLoop float32 now statuses (length statuses) c) =
        float32 (now - StartedAt (statuses ! i))"
    using deploymentsLoop_find [of "length statuses" statuses float32 now c]
    by (simp add: SetValue_def)
qed

theorem stuck_deployment_last_write_witness:
  "deployments (\<lambda>d. Val (of_int d)) 1000 4
     [\<lparr>DeploymentState = ApplicationDeploymentStateSummary, StartedAt = 100\<rparr>,
      \<lparr>DeploymentState = ApplicationDeploymentStateStuck, StartedAt = 200\<rparr>,
      \<lparr>DeploymentState = ApplicationDeploymentStateDeployed, StartedAt = 300\<rparr>,
      \<lparr>DeploymentState = ApplicationDeploymentStateStuck, StartedAt = 400\<rparr>]
     \<lparr>Threshold = Val 0, items = [], counter = 0, lastValue = NaN\<rparr> =
   Some \<lparr>Threshold = Val 0, items = [], counter = 0, lastValue = Val 800\<rparr> \<and>
   lastValue (deploymentsLoop (\<lambda>d. Val (of_int d)) 1000
     [\<lparr>DeploymentState = ApplicationDeploymentStateSummary, StartedAt = 100\<rparr>,
      \<lparr>DeploymentState = ApplicationDeploymentStateStuck, StartedAt = 200\<rparr>,
      \<lparr>DeploymentState = ApplicationDeploymentStateDeployed, StartedAt = 300\<rparr>,
      \<lparr>DeploymentState = ApplicationDeploymentStateStuck, StartedAt = 400\<rparr>]
     (length [\<lparr>DeploymentState = ApplicationDeploymentStateSummary, StartedAt = 100\<rparr>,
      \<lparr>DeploymentState = ApplicationDeploymentStateStuck, StartedAt = 200\<rparr>,
      \<lparr>DeploymentState = ApplicationDeploymentStateDeployed, StartedAt = 300\<rparr>,
      \<lparr>DeploymentState = ApplicationDeploymentStateStuck, StartedAt = 400\<rparr>])
     \<lparr>Threshold = Val 0, items = [], counter = 0, lastValue = NaN\<rparr>) = Val 800"
  using stuck_deployment_last_write [of "\<lparr>DeploymentState = ApplicationDeploymentStateStuck, StartedAt = 200\<rparr>"
      "\<lambda>d. Val (of_int d)" 1000 "\<lparr>Threshold = Val 0, items = [], counter = 0, lastValue = NaN\<rparr>"
      NaN NaN 4
      "[\<lparr>DeploymentState = ApplicationDeploymentStateSummary, StartedAt = 100\<rparr>,
        \<lparr>DeploymentState = ApplicationDeploymentStateStuck, StartedAt = 200\<rparr>,
        \<lparr>DeploymentState = ApplicationDeploymentStateDeployed, StartedAt = 300\<rparr>,
        \<lparr>DeploymentState = ApplicationDeploymentStateStuck, StartedAt = 400\<rparr>]" 1]
  by (simp add: SetValue_def)

end
